theory Spec2Isabelle
  imports Complex_Main "HOL-Library.Multiset"
begin

section \<open>Values carried by the pipeline\<close>

text \<open>
  The services exchange JSON documents through Redis streams. A Python float is modelled by
  the rational it denotes, with the three special values \<open>json.loads\<close> accepts kept apart;
  a Python dict is an association list read with \<open>map_of\<close>.
\<close>

datatype pyfloat = Finite rat | NaN | PosInf | NegInf

datatype json =
    JNull
  | JBool bool
  | JInt int
  | JFloat pyfloat
  | JStr string
  | JArr "json list"
  | JObj "(string \<times> json) list"

datatype error =
    AttributeError
  | KeyError string
  | TypeError
  | JSONDecodeError
  | UnicodeDecodeError
  | ZeroDivisionError
  | WebSocketError

text \<open>
  A Python \<open>str\<close> that reaches \<open>json.loads\<close> is either the text \<open>json.dumps\<close> produced for
  a value (and then loads back to it), or text that is not JSON. The bytes of a stream field
  either decode as UTF-8 to such a \<open>str\<close>, or do not decode.
\<close>

datatype pystr = Dumped json | NotJson string

datatype bytes = Utf8 pystr | BadBytes

definition json_dumps :: "json \<Rightarrow> pystr" where
  "json_dumps j = Dumped j"

fun json_loads :: "pystr \<Rightarrow> error + json" where
  "json_loads (Dumped j) = Inr j"
| "json_loads (NotJson s) = Inl JSONDecodeError"

fun decode :: "bytes \<Rightarrow> error + pystr" where
  "decode (Utf8 t) = Inr t"
| "decode BadBytes = Inl UnicodeDecodeError"

text \<open>\<open>d.get(k)\<close> on a dict: the value, or \<open>None\<close> when the key is absent.\<close>

definition dict_get :: "(string \<times> json) list \<Rightarrow> string \<Rightarrow> json" where
  "dict_get kvs k = (case map_of kvs k of None \<Rightarrow> JNull | Some v \<Rightarrow> v)"

text \<open>\<open>d[k]\<close> on a dict: raises \<open>KeyError\<close> when the key is absent.\<close>

definition dict_item :: "(string \<times> json) list \<Rightarrow> string \<Rightarrow> error + json" where
  "dict_item kvs k = (case map_of kvs k of None \<Rightarrow> Inl (KeyError k) | Some v \<Rightarrow> Inr v)"

text \<open>Python truth value of a JSON value, as \<open>and\<close> tests it.\<close>

fun truthy :: "json \<Rightarrow> bool" where
  "truthy JNull = False"
| "truthy (JBool b) = b"
| "truthy (JInt n) = (n \<noteq> 0)"
| "truthy (JFloat (Finite r)) = (r \<noteq> 0)"
| "truthy (JFloat NaN) = True"
| "truthy (JFloat PosInf) = True"
| "truthy (JFloat NegInf) = True"
| "truthy (JStr s) = (s \<noteq> [])"
| "truthy (JArr xs) = (xs \<noteq> [])"
| "truthy (JObj kvs) = (kvs \<noteq> [])"

text \<open>\<open>v < 0\<close>: defined on numbers (and bools, which are ints), a \<open>TypeError\<close> elsewhere.\<close>

fun lt_zero :: "json \<Rightarrow> error + bool" where
  "lt_zero (JBool b) = Inr False"
| "lt_zero (JInt n) = Inr (n < 0)"
| "lt_zero (JFloat (Finite r)) = Inr (r < 0)"
| "lt_zero (JFloat NaN) = Inr False"
| "lt_zero (JFloat PosInf) = Inr False"
| "lt_zero (JFloat NegInf) = Inr True"
| "lt_zero JNull = Inl TypeError"
| "lt_zero (JStr s) = Inl TypeError"
| "lt_zero (JArr xs) = Inl TypeError"
| "lt_zero (JObj kvs) = Inl TypeError"

section \<open>The stream substrate and the state the services act on\<close>

type_synonym fields = "(string \<times> bytes) list"
type_synonym entry = "nat \<times> fields"

datatype cursor = Tail | At nat

text \<open>
  The effects a service performs on the world: an append to a topic, a line appended to the
  execution log, a line of logger output.
\<close>

datatype effect = XAdd string fields | FileAppend pystr | Log string

text \<open>
  The source of identifiers and wall-clock readings: the \<open>n\<close>-th draw yields \<open>uuid4 n\<close> and
  \<open>time_ms n\<close>.
\<close>

record env =
  uuid4 :: "nat \<Rightarrow> string"
  time_ms :: "nat \<Rightarrow> int"

text \<open>
  The state the services act on. \<open>journal\<close> records every append to a topic and every line
  written to the execution log in the order they happen: the topics alone do not show the
  order of writes to different topics. \<open>inflight\<close> holds the effects of started tasks that
  nobody awaits any more; they happen when the event loop gets to them.
\<close>

record sys =
  last_id :: cursor
  streams :: "string \<Rightarrow> entry list"
  logfile :: "pystr list"
  logged :: "string list"
  draws :: nat
  journal :: "effect list"
  inflight :: "effect list"

abbreviation TICK_STREAM :: string where "TICK_STREAM \<equiv> ''market.ticks''"
abbreviation PROPOSAL_STREAM :: string where "PROPOSAL_STREAM \<equiv> ''agent.proposals''"
abbreviation EXEC_STREAM :: string where "EXEC_STREAM \<equiv> ''execution.actions''"
abbreviation AUDIT_STREAM :: string where "AUDIT_STREAM \<equiv> ''audit.events''"

text \<open>
  Modelled from the spec: the Stream Substrate is external (Redis); its append contract is
  \<open>append(topic, record) -> entry_id\<close> with strictly increasing entry ids per topic. Ids are
  natural numbers here, and an append takes the successor of the topic's last id. Appends
  and reads are taken to succeed: connection failures of the substrate are not modelled.
\<close>

definition next_id :: "entry list \<Rightarrow> nat" where
  "next_id es = (case es of [] \<Rightarrow> 1 | _ \<Rightarrow> Suc (fst (last es)))"

definition xadd :: "string \<Rightarrow> fields \<Rightarrow> sys \<Rightarrow> sys" where
  "xadd name fs s =
     s\<lparr>streams := (streams s)(name := streams s name @ [(next_id (streams s name), fs)]),
       journal := journal s @ [XAdd name fs]\<rparr>"

fun perform :: "effect \<Rightarrow> sys \<Rightarrow> sys" where
  "perform (XAdd name fs) s = xadd name fs s"
| "perform (FileAppend line) s =
     s\<lparr>logfile := logfile s @ [line], journal := journal s @ [FileAppend line]\<rparr>"
| "perform (Log msg) s = s\<lparr>logged := logged s @ [msg]\<rparr>"

text \<open>The event loop completes the tasks left in flight.\<close>

definition settle :: "sys \<Rightarrow> sys" where
  "settle s = (fold perform (inflight s) s)\<lparr>inflight := []\<rparr>"

text \<open>
  Modelled from the spec: \<open>read(topic, from_cursor, max_wait, max_count)\<close> from a concrete
  cursor id returns, in order, at most \<open>max_count\<close> entries whose id lies after the cursor.
\<close>

definition xread_after :: "nat \<Rightarrow> nat \<Rightarrow> entry list \<Rightarrow> entry list" where
  "xread_after i max_count es = take max_count (filter (\<lambda>e. i < fst e) es)"

section \<open>Agents\<close>

text \<open>
  \<open>on_tick\<close> of an agent takes the decoded tick and appends to the proposal topic. Calling
  \<open>.get\<close> on a document that is not a dict raises \<open>AttributeError\<close>.
\<close>

definition market_proposal :: "env \<Rightarrow> string \<Rightarrow> nat \<Rightarrow> (string \<times> json) list \<Rightarrow> json" where
  "market_proposal ev agent_id n tick =
     (let price = dict_get tick ''price'';
          symbol = dict_get tick ''symbol''
      in JObj [(''proposal_id'', JStr (uuid4 ev n)),
               (''agent_id'', JStr agent_id),
               (''timestamp'', JInt (time_ms ev n)),
               (''type'', JStr ''trade''),
               (''payload'', JObj [(''symbol'', symbol), (''side'', JStr ''buy''),
                                   (''size'', JFloat (Finite (1 / 1000))), (''price'', price)]),
               (''priority'', JInt 5)])"

definition MarketAgent_on_tick :: "env \<Rightarrow> string \<Rightarrow> json \<Rightarrow> sys \<Rightarrow> error + sys" where
  "MarketAgent_on_tick ev agent_id tick s =
     (case tick of
        JObj kvs \<Rightarrow>
          Inr (xadd PROPOSAL_STREAM
                 [(''data'', Utf8 (json_dumps (market_proposal ev agent_id (draws s) kvs)))]
                 (s\<lparr>draws := Suc (draws s),
                    logged := logged s @ [''MarketAgent proposed'']\<rparr>))
      | _ \<Rightarrow> Inl AttributeError)"

definition risk_proposal :: "env \<Rightarrow> string \<Rightarrow> nat \<Rightarrow> (string \<times> json) list \<Rightarrow> json" where
  "risk_proposal ev agent_id n tick =
     (let symbol = dict_get tick ''symbol''
      in JObj [(''proposal_id'', JStr (uuid4 ev n)),
               (''agent_id'', JStr agent_id),
               (''timestamp'', JInt (time_ms ev n)),
               (''type'', JStr ''halt''),
               (''payload'', JObj [(''reason'', JStr ''price anomaly''), (''symbol'', symbol)]),
               (''priority'', JInt 10)])"

definition RiskAgent_on_tick :: "env \<Rightarrow> string \<Rightarrow> json \<Rightarrow> sys \<Rightarrow> error + sys" where
  "RiskAgent_on_tick ev agent_id tick s =
     (case tick of
        JObj kvs \<Rightarrow>
          (let price = dict_get kvs ''price'' in
           if \<not> truthy price then Inr s
           else (case lt_zero price of
                   Inl e \<Rightarrow> Inl e
                 | Inr False \<Rightarrow> Inr s
                 | Inr True \<Rightarrow>
                     Inr (xadd PROPOSAL_STREAM
                            [(''data'', Utf8 (json_dumps (risk_proposal ev agent_id (draws s) kvs)))]
                            (s\<lparr>draws := Suc (draws s),
                               logged := logged s @ [''RiskAgent proposed'']\<rparr>))))
      | _ \<Rightarrow> Inl AttributeError)"

text \<open>What the claims call a negative price and a price greater than or equal to zero.\<close>

fun negative_price :: "json \<Rightarrow> bool" where
  "negative_price (JInt n) = (n < 0)"
| "negative_price (JFloat (Finite r)) = (r < 0)"
| "negative_price (JFloat NegInf) = True"
| "negative_price _ = False"

fun nonnegative_price :: "json \<Rightarrow> bool" where
  "nonnegative_price (JInt n) = (0 \<le> n)"
| "nonnegative_price (JFloat (Finite r)) = (0 \<le> r)"
| "nonnegative_price (JFloat PosInf) = True"
| "nonnegative_price _ = False"

text \<open>The documents a topic holds, for the entries that decode.\<close>

fun entry_doc :: "entry \<Rightarrow> json option" where
  "entry_doc (i, fs) =
     (case map_of fs ''data'' of
        Some (Utf8 (Dumped j)) \<Rightarrow> Some j
      | _ \<Rightarrow> None)"

section \<open>Consumer loops\<close>

text \<open>
  Each service polls with \<open>xread\<close> inside \<open>while True: try: ... except Exception\<close>. One pass of
  that loop is modelled on the response \<open>xread\<close> returned: the nested \<open>for\<close> loops run over it,
  an exception leaves them at once (the state reached so far is kept), and the handler logs
  it. The pair returned by the loops holds the exception that escaped, if any.
\<close>

fun for_streams ::
  "(entry list \<Rightarrow> sys \<Rightarrow> error option \<times> sys) \<Rightarrow> (string \<times> entry list) list \<Rightarrow> sys
     \<Rightarrow> error option \<times> sys" where
  "for_streams body [] s = (None, s)"
| "for_streams body ((stream_name, entries) # resp) s =
     (case body entries s of
        (Some e, s') \<Rightarrow> (Some e, s')
      | (None, s') \<Rightarrow> for_streams body resp s')"

definition poll ::
  "string \<Rightarrow> (entry list \<Rightarrow> sys \<Rightarrow> error option \<times> sys) \<Rightarrow> (string \<times> entry list) list \<Rightarrow> sys
     \<Rightarrow> sys" where
  "poll msg body resp s =
     (if resp = [] then s
      else (case for_streams body resp s of
              (None, s') \<Rightarrow> s'
            | (Some e, s') \<Rightarrow> s'\<lparr>logged := logged s' @ [msg]\<rparr>))"

subsection \<open>Agent dispatcher\<close>

text \<open>
  An agent's \<open>on_tick\<close> run as a task of its own. The part before its first \<open>await\<close> runs
  when the task starts: the agent builds its proposal there, and it is the only place
  where it can raise. What remains is the awaited append and the log line after it.
\<close>

type_synonym coroutine = "sys \<Rightarrow> error + sys \<times> effect list"

definition MarketAgent_begin :: "env \<Rightarrow> string \<Rightarrow> json \<Rightarrow> coroutine" where
  "MarketAgent_begin ev agent_id tick s =
     (case tick of
        JObj kvs \<Rightarrow>
          Inr (s\<lparr>draws := Suc (draws s)\<rparr>,
               [XAdd PROPOSAL_STREAM
                  [(''data'', Utf8 (json_dumps (market_proposal ev agent_id (draws s) kvs)))],
                Log ''MarketAgent proposed''])
      | _ \<Rightarrow> Inl AttributeError)"

definition RiskAgent_begin :: "env \<Rightarrow> string \<Rightarrow> json \<Rightarrow> coroutine" where
  "RiskAgent_begin ev agent_id tick s =
     (case tick of
        JObj kvs \<Rightarrow>
          (let price = dict_get kvs ''price'' in
           if \<not> truthy price then Inr (s, [])
           else (case lt_zero price of
                   Inl e \<Rightarrow> Inl e
                 | Inr False \<Rightarrow> Inr (s, [])
                 | Inr True \<Rightarrow>
                     Inr (s\<lparr>draws := Suc (draws s)\<rparr>,
                          [XAdd PROPOSAL_STREAM
                             [(''data'', Utf8 (json_dumps (risk_proposal ev agent_id (draws s) kvs)))],
                           Log ''RiskAgent proposed''])))
      | _ \<Rightarrow> Inl AttributeError)"

text \<open>
  \<open>asyncio.gather\<close> without \<open>return_exceptions\<close>. Every coroutine becomes a task and is
  started, in list order. If none raises, \<open>gather\<close> waits for all of them, and their awaited
  effects are done when it returns (in list order here: one schedule of the event loop).
  If one raises, the first exception is raised to the caller at once; the other tasks are
  neither cancelled nor awaited, and their effects are left in flight.
\<close>

fun start_tasks :: "coroutine list \<Rightarrow> sys \<Rightarrow> sys \<times> (error + effect list) list" where
  "start_tasks [] s = (s, [])"
| "start_tasks (c # cs) s =
     (case c s of
        Inl e \<Rightarrow> (case start_tasks cs s of (s', rs) \<Rightarrow> (s', Inl e # rs))
      | Inr (s1, ws) \<Rightarrow> (case start_tasks cs s1 of (s', rs) \<Rightarrow> (s', Inr ws # rs)))"

fun awaited :: "(error + effect list) list \<Rightarrow> effect list" where
  "awaited [] = []"
| "awaited (Inl e # rs) = awaited rs"
| "awaited (Inr ws # rs) = ws @ awaited rs"

fun first_exception :: "(error + effect list) list \<Rightarrow> error option" where
  "first_exception [] = None"
| "first_exception (Inl e # rs) = Some e"
| "first_exception (Inr ws # rs) = first_exception rs"

definition gather :: "coroutine list \<Rightarrow> sys \<Rightarrow> error option \<times> sys" where
  "gather cs s =
     (case start_tasks cs s of
        (s1, rs) \<Rightarrow>
          (case first_exception rs of
             None \<Rightarrow> (None, fold perform (awaited rs) s1)
           | Some e \<Rightarrow> (Some e, s1\<lparr>inflight := inflight s1 @ awaited rs\<rparr>)))"

definition agents :: "env \<Rightarrow> json \<Rightarrow> coroutine list" where
  "agents ev doc =
     [MarketAgent_begin ev ''agent.market.1'' doc, RiskAgent_begin ev ''agent.risk.1'' doc]"

fun manager_entries :: "env \<Rightarrow> entry list \<Rightarrow> sys \<Rightarrow> error option \<times> sys" where
  "manager_entries ev [] s = (None, s)"
| "manager_entries ev ((entry_id, flds) # es) s =
     (case map_of flds ''data'' of
        None \<Rightarrow> manager_entries ev es (s\<lparr>last_id := At entry_id\<rparr>)
      | Some b \<Rightarrow>
          (case decode b of
             Inl e \<Rightarrow> (Some e, s)
           | Inr raw \<Rightarrow>
               (case json_loads raw of
                  Inl e \<Rightarrow> manager_entries ev es (s\<lparr>logged := logged s @ [''Bad tick JSON'']\<rparr>)
                | Inr doc \<Rightarrow>
                    (case gather (agents ev doc) s of
                       (Some e, s') \<Rightarrow> (Some e, s')
                     | (None, s') \<Rightarrow> manager_entries ev es (s'\<lparr>last_id := At entry_id\<rparr>)))))"

definition start_manager :: "env \<Rightarrow> (string \<times> entry list) list \<Rightarrow> sys \<Rightarrow> sys" where
  "start_manager ev resp s = poll ''Agent manager error'' (manager_entries ev) resp s"

subsection \<open>Policy Evaluator\<close>

text \<open>
  The policy of \<open>governance_loop\<close>: the Action and the AuditEvent built for a decoded
  proposal. \<open>proposal["proposal_id"]\<close> and \<open>proposal["timestamp"]\<close> raise \<open>KeyError\<close> when
  absent, \<open>proposal.get\<close> raises \<open>AttributeError\<close> on a document that is not a dict.
\<close>

definition governance_policy :: "json \<Rightarrow> error + (json \<times> json)" where
  "governance_policy proposal =
     (case proposal of
        JObj kvs \<Rightarrow>
          (if dict_get kvs ''type'' = JStr ''trade'' then
             (case dict_item kvs ''proposal_id'' of
                Inl e \<Rightarrow> Inl e
              | Inr pid \<Rightarrow>
                  (case dict_item kvs ''timestamp'' of
                     Inl e \<Rightarrow> Inl e
                   | Inr ts \<Rightarrow>
                       Inr (JObj [(''action_id'', pid),
                                  (''proposal_id'', pid),
                                  (''timestamp'', ts),
                                  (''status'', JStr ''applied''),
                                  (''result'', JObj [(''executed'', JBool True),
                                                     (''info'', JStr ''auto-approved demo'')])],
                            JObj [(''event'', JStr ''proposal_approved''),
                                  (''proposal'', proposal)])))
           else
             (case dict_item kvs ''proposal_id'' of
                Inl e \<Rightarrow> Inl e
              | Inr pid \<Rightarrow>
                  (case dict_item kvs ''timestamp'' of
                     Inl e \<Rightarrow> Inl e
                   | Inr ts \<Rightarrow>
                       Inr (JObj [(''action_id'', pid),
                                  (''proposal_id'', pid),
                                  (''timestamp'', ts),
                                  (''status'', JStr ''rejected''),
                                  (''result'', JObj [(''reason'',
                                       JStr ''unsupported proposal type in demo'')])],
                            JObj [(''event'', JStr ''proposal_rejected''),
                                  (''proposal'', proposal)]))))
      | _ \<Rightarrow> Inl AttributeError)"

text \<open>The \<open>logger.info\<close> line of the approving branch.\<close>

definition governance_info :: "json \<Rightarrow> string list" where
  "governance_info proposal =
     (case proposal of
        JObj kvs \<Rightarrow>
          (if dict_get kvs ''type'' = JStr ''trade'' then [''Governance approved proposal''] else [])
      | _ \<Rightarrow> [])"

definition governance_writes :: "json \<Rightarrow> error + effect list" where
  "governance_writes proposal =
     (case governance_policy proposal of
        Inl e \<Rightarrow> Inl e
      | Inr (action, audit) \<Rightarrow>
          Inr [XAdd EXEC_STREAM [(''data'', Utf8 (json_dumps action))],
               XAdd AUDIT_STREAM [(''data'', Utf8 (json_dumps audit))]])"

fun governance_entries :: "entry list \<Rightarrow> sys \<Rightarrow> error option \<times> sys" where
  "governance_entries [] s = (None, s)"
| "governance_entries ((entry_id, flds) # es) s =
     (case map_of flds ''data'' of
        None \<Rightarrow> governance_entries es s
      | Some b \<Rightarrow>
          (case decode b of
             Inl e \<Rightarrow> (Some e, s)
           | Inr raw \<Rightarrow>
               (case json_loads raw of
                  Inl e \<Rightarrow> (Some e, s)
                | Inr proposal \<Rightarrow>
                    (case governance_writes proposal of
                       Inl e \<Rightarrow> (Some e, s)
                     | Inr ws \<Rightarrow>
                         governance_entries es
                           ((fold perform ws s)
                              \<lparr>last_id := At entry_id,
                               logged := logged s @ governance_info proposal\<rparr>)))))"

definition governance_loop :: "(string \<times> entry list) list \<Rightarrow> sys \<Rightarrow> sys" where
  "governance_loop resp s = poll ''Governance loop error'' governance_entries resp s"

subsection \<open>Execution Applier\<close>

definition execution_writes :: "json \<Rightarrow> effect list" where
  "execution_writes action =
     [FileAppend (json_dumps action),
      XAdd AUDIT_STREAM
        [(''data'', Utf8 (json_dumps (JObj [(''event'', JStr ''action_executed''),
                                            (''action'', action)])))]]"

text \<open>
  After the two writes the loop logs \<open>action.get("action_id")\<close>, which raises
  \<open>AttributeError\<close> on a document that is not a dict; the writes have happened by then.
\<close>

fun execution_entries :: "entry list \<Rightarrow> sys \<Rightarrow> error option \<times> sys" where
  "execution_entries [] s = (None, s)"
| "execution_entries ((entry_id, flds) # es) s =
     (case map_of flds ''data'' of
        None \<Rightarrow> execution_entries es s
      | Some b \<Rightarrow>
          (case decode b of
             Inl e \<Rightarrow> (Some e, s)
           | Inr raw \<Rightarrow>
               (case json_loads raw of
                  Inl e \<Rightarrow> (Some e, s)
                | Inr action \<Rightarrow>
                    (let s' = fold perform (execution_writes action) s in
                     case action of
                       JObj kvs \<Rightarrow>
                         execution_entries es
                           (s'\<lparr>last_id := At entry_id,
                               logged := logged s' @ [''Executed action'']\<rparr>)
                     | _ \<Rightarrow> (Some AttributeError, s')))))"

definition execution_loop :: "(string \<times> entry list) list \<Rightarrow> sys \<Rightarrow> sys" where
  "execution_loop resp s = poll ''Execution loop error'' execution_entries resp s"

section \<open>Replay player\<close>

text \<open>
  A row of the input file, as \<open>pandas\<close> hands it to \<open>publish_tick\<close>. An empty cell is NaN,
  whatever the column; \<open>size\<close> and \<open>side\<close> are read with \<open>tick.get\<close>, whose default applies
  when the file has no such column.
\<close>

record tick_row =
  row_timestamp :: int
  row_symbol :: json
  row_price :: pyfloat
  row_size :: "pyfloat option"
  row_side :: "json option"

definition publish_tick :: "env \<Rightarrow> tick_row \<Rightarrow> sys \<Rightarrow> sys" where
  "publish_tick ev tick s =
     (let data = JObj [(''stream_id'', JStr (uuid4 ev (draws s))),
                       (''timestamp'', JInt (row_timestamp tick)),
                       (''symbol'', row_symbol tick),
                       (''price'', JFloat (row_price tick)),
                       (''size'', JFloat (case row_size tick of None \<Rightarrow> Finite 0 | Some z \<Rightarrow> z)),
                       (''side'', (case row_side tick of None \<Rightarrow> JStr ''unknown'' | Some d \<Rightarrow> d)),
                       (''source'', JStr ''replay'')]
      in xadd TICK_STREAM [(''data'', Utf8 (json_dumps data))] (s\<lparr>draws := Suc (draws s)\<rparr>))"

text \<open>
  How a run of the player ends: it returns, it raises, or it stays in a sleep that never
  returns (\<open>asyncio.sleep\<close> of an infinite or NaN delay).
\<close>

datatype outcome = Finished | Raised error | Hangs

text \<open>
  The two pacing branches of \<open>run_player\<close>. The delays are float arithmetic on \<open>speed\<close> and
  the timestamps: a division by a zero \<open>speed\<close> raises \<open>ZeroDivisionError\<close>; otherwise the
  delay may be finite, infinite or NaN, and whether the sleep before (realtime) or after
  (fixed interval) the \<open>i\<close>-th publish returns is the parameter \<open>wakes i\<close>. In the realtime
  branch the first row is published before any division or sleep.
\<close>

fun replay_realtime ::
  "env \<Rightarrow> pyfloat \<Rightarrow> (nat \<Rightarrow> bool) \<Rightarrow> nat \<Rightarrow> int option \<Rightarrow> tick_row list \<Rightarrow> sys
     \<Rightarrow> outcome \<times> sys" where
  "replay_realtime ev speed wakes i prev_ts [] s = (Finished, s)"
| "replay_realtime ev speed wakes i prev_ts (row # rows) s =
     (let ts = row_timestamp row in
      if prev_ts \<noteq> None \<and> speed = Finite 0 then (Raised ZeroDivisionError, s)
      else if prev_ts \<noteq> None \<and> \<not> wakes i then (Hangs, s)
      else replay_realtime ev speed wakes (Suc i) (Some ts) rows (publish_tick ev row s))"

fun replay_fixed ::
  "env \<Rightarrow> (nat \<Rightarrow> bool) \<Rightarrow> nat \<Rightarrow> tick_row list \<Rightarrow> sys \<Rightarrow> outcome \<times> sys" where
  "replay_fixed ev wakes i [] s = (Finished, s)"
| "replay_fixed ev wakes i (row # rows) s =
     (let s1 = publish_tick ev row s in
      if wakes i then replay_fixed ev wakes (Suc i) rows s1 else (Hangs, s1))"

text \<open>
  \<open>df.sort_values("timestamp")\<close> is the parameter \<open>sort_values\<close>: \<open>pandas\<close> sorts with an
  unstable sort, so which arrangement of rows with equal timestamps it returns is not
  fixed by the program.
\<close>

definition run_player ::
  "env \<Rightarrow> (tick_row list \<Rightarrow> tick_row list) \<Rightarrow> (nat \<Rightarrow> bool) \<Rightarrow> tick_row list \<Rightarrow> pyfloat \<Rightarrow> bool
     \<Rightarrow> sys \<Rightarrow> outcome \<times> sys" where
  "run_player ev sort_values wakes file speed realtime s =
     (let df = sort_values file;
          s0 = s\<lparr>logged := logged s @ [''Loading ticks'', ''Loaded ticks'']\<rparr>
      in
      if realtime then
        (case replay_realtime ev speed wakes 0 None df s0 of
           (Finished, s') \<Rightarrow> (Finished, s'\<lparr>logged := logged s' @ [''Replay finished'']\<rparr>)
         | (out, s') \<Rightarrow> (out, s'))
      else if speed = Finite 0 then (Raised ZeroDivisionError, s0)
      else
        (case replay_fixed ev wakes 0 df s0 of
           (Finished, s') \<Rightarrow> (Finished, s'\<lparr>logged := logged s' @ [''Replay finished'']\<rparr>)
         | (out, s') \<Rightarrow> (out, s')))"

text \<open>What the claim asks of \<open>sort_values\<close>: a sorted arrangement of the same rows.\<close>

definition sorts_by_timestamp :: "(tick_row list \<Rightarrow> tick_row list) \<Rightarrow> tick_row list \<Rightarrow> bool" where
  "sorts_by_timestamp sort_values file \<longleftrightarrow>
     sorted (map row_timestamp (sort_values file)) \<and> mset (sort_values file) = mset file"

text \<open>The \<open>timestamp\<close> field of the document an entry holds.\<close>

definition entry_timestamp :: "entry \<Rightarrow> int option" where
  "entry_timestamp e =
     (case entry_doc e of
        Some (JObj kvs) \<Rightarrow> (case dict_get kvs ''timestamp'' of JInt t \<Rightarrow> Some t | _ \<Rightarrow> None)
      | _ \<Rightarrow> None)"

text \<open>What a run has published when it stops after \<open>k\<close> rows.\<close>

definition published :: "tick_row list \<Rightarrow> sys \<Rightarrow> outcome \<times> sys \<Rightarrow> nat \<Rightarrow> entry list \<Rightarrow> bool" where
  "published rows s r k new \<longleftrightarrow>
     streams (snd r) TICK_STREAM = streams s TICK_STREAM @ new
     \<and> k \<le> length rows
     \<and> map fst new = [next_id (streams s TICK_STREAM) ..< next_id (streams s TICK_STREAM) + k]
     \<and> map entry_timestamp new = map (\<lambda>r. Some (row_timestamp r)) (take k rows)
     \<and> (fst r = Finished \<longrightarrow> k = length rows)"

section \<open>Fan-out Gateway\<close>

text \<open>
  \<open>ConnectionManager.active\<close> is a Python set of connections; it is kept as the list of its
  elements in iteration order, without repetition. Connections are numbered. While
  \<open>broadcast\<close> is suspended in \<open>await ws.send_text\<close>, other coroutines of the event loop may
  run: a client connecting, a client's handler disconnecting, a transport going away.
\<close>

datatype event = Connect nat | Disconnect nat | Drop nat

record gateway =
  active :: "nat list"
  dropped :: "nat set"
  inbox :: "(nat \<times> string) list"

definition connect :: "nat \<Rightarrow> gateway \<Rightarrow> gateway" where
  "connect ws g = g\<lparr>active := (if ws \<in> set (active g) then active g else active g @ [ws])\<rparr>"

definition disconnect :: "nat \<Rightarrow> gateway \<Rightarrow> gateway" where
  "disconnect ws g = g\<lparr>active := removeAll ws (active g)\<rparr>"

fun handle :: "event \<Rightarrow> gateway \<Rightarrow> gateway" where
  "handle (Connect ws) g = connect ws g"
| "handle (Disconnect ws) g = disconnect ws g"
| "handle (Drop ws) g = g\<lparr>dropped := insert ws (dropped g)\<rparr>"

text \<open>
  \<open>ws.send_text(message)\<close>: the events scheduled during this await run, then the send raises
  if the transport has gone away and delivers otherwise.
\<close>

definition send_text ::
  "(nat \<Rightarrow> event list) \<Rightarrow> nat \<Rightarrow> string \<Rightarrow> gateway \<Rightarrow> error option \<times> gateway" where
  "send_text sched ws message g =
     (let g' = fold handle (sched ws) g in
      if ws \<in> dropped g' then (Some WebSocketError, g')
      else (None, g'\<lparr>inbox := inbox g' @ [(ws, message)]\<rparr>))"

fun broadcast_pass ::
  "(nat \<Rightarrow> event list) \<Rightarrow> string \<Rightarrow> nat list \<Rightarrow> nat list \<times> gateway \<Rightarrow> nat list \<times> gateway" where
  "broadcast_pass sched message [] (to_remove, g) = (to_remove, g)"
| "broadcast_pass sched message (ws # wss) (to_remove, g) =
     (case send_text sched ws message g of
        (None, g') \<Rightarrow> broadcast_pass sched message wss (to_remove, g')
      | (Some e, g') \<Rightarrow> broadcast_pass sched message wss (to_remove @ [ws], g'))"

definition broadcast ::
  "(nat \<Rightarrow> event list) \<Rightarrow> string \<Rightarrow> gateway \<Rightarrow> error option \<times> gateway" where
  "broadcast sched message g =
     (case broadcast_pass sched message (active g) ([], g) of
        (to_remove, g') \<Rightarrow> (None, fold disconnect to_remove g'))"

section \<open>Concrete inputs and observations\<close>

text \<open>A fixed environment, an empty system and two proposals, for evaluating the model.\<close>

definition env0 :: env where
  "env0 = \<lparr>uuid4 = (\<lambda>n. ''id-'' @ replicate n CHR ''x''), time_ms = (\<lambda>n. 1000 + int n)\<rparr>"

definition sys0 :: sys where
  "sys0 = \<lparr>last_id = Tail, streams = (\<lambda>name. []), logfile = [], logged = [], draws = 0,
            journal = [], inflight = []\<rparr>"

definition halt_proposal :: json where
  "halt_proposal = JObj [(''proposal_id'', JStr ''p-1''), (''agent_id'', JStr ''agent.risk.1''),
     (''timestamp'', JInt 1000), (''type'', JStr ''halt''),
     (''payload'', JObj [(''reason'', JStr ''price anomaly''), (''symbol'', JStr ''X'')]),
     (''priority'', JInt 10)]"

definition trade_proposal :: json where
  "trade_proposal = JObj [(''proposal_id'', JStr ''p-2''), (''agent_id'', JStr ''agent.market.1''),
     (''timestamp'', JInt 1001), (''type'', JStr ''trade''),
     (''payload'', JObj [(''symbol'', JStr ''X''), (''side'', JStr ''buy''),
        (''size'', JFloat (Finite (1 / 1000))), (''price'', JFloat (Finite 5))]),
     (''priority'', JInt 5)]"

text \<open>The documents of a topic, in entry order.\<close>

definition emitted :: "string \<Rightarrow> sys \<Rightarrow> json option list" where
  "emitted name s = map entry_doc (streams s name)"

text \<open>
  An Action that carries the id and the timestamp of a proposal, and an entry of the action
  topic that does so for one of the entries of a batch.
\<close>

definition copies_from :: "json \<Rightarrow> json \<Rightarrow> bool" where
  "copies_from p a =
     (case (p, a) of
        (JObj kvs, JObj akvs) \<Rightarrow>
          (case (dict_item kvs ''proposal_id'', dict_item kvs ''timestamp'') of
             (Inr pid, Inr ts) \<Rightarrow>
               dict_item akvs ''action_id'' = Inr pid
               \<and> dict_item akvs ''proposal_id'' = Inr pid
               \<and> dict_item akvs ''timestamp'' = Inr ts
           | _ \<Rightarrow> False)
      | _ \<Rightarrow> False)"

definition resolves_one_of :: "entry list \<Rightarrow> entry \<Rightarrow> bool" where
  "resolves_one_of es a =
     list_ex (\<lambda>e. case (entry_doc e, entry_doc a) of
                     (Some p, Some d) \<Rightarrow> copies_from p d
                   | _ \<Rightarrow> False) es"






definition applied_action :: "(string \<times> json) list" where
  "applied_action = [(''action_id'', JStr ''p-2''), (''proposal_id'', JStr ''p-2''),
     (''timestamp'', JInt 1001), (''status'', JStr ''applied''),
     (''result'', JObj [(''executed'', JBool True), (''info'', JStr ''auto-approved demo'')])]"

definition tick_text_price :: entry where
  "tick_text_price = (7, [(''data'', Utf8 (json_dumps
      (JObj [(''symbol'', JStr ''X''), (''price'', JStr ''abc'')])))])"

definition tick_ok :: entry where
  "tick_ok = (8, [(''data'', Utf8 (json_dumps
      (JObj [(''symbol'', JStr ''X''), (''price'', JFloat (Finite 5))])))])"

definition malformed :: entry where
  "malformed = (7, [(''data'', Utf8 (NotJson ''{not json''))])"

definition two_rows :: "tick_row list" where
  "two_rows =
     [\<lparr>row_timestamp = 1000, row_symbol = JStr ''X'', row_price = Finite 5,
       row_size = Some (Finite 1), row_side = Some (JStr ''buy'')\<rparr>,
      \<lparr>row_timestamp = 2000, row_symbol = JStr ''X'', row_price = Finite 6,
       row_size = None, row_side = None\<rparr>]"

definition gateway0 :: gateway where
  "gateway0 = \<lparr>active = [1, 2, 3], dropped = {2}, inbox = []\<rparr>"

definition sched0 :: "nat \<Rightarrow> event list" where
  "sched0 ws = (if ws = 1 then [Disconnect 3, Connect 4] else [])"

section \<open>Agents: what one tick produces\<close>

text \<open>
  C5. On every tick (a dict), MarketAgent appends exactly one entry to the proposal topic and
  nothing else changes but the draw counter, the log and the journal of writes; the entry is a Proposal of type \<open>trade\<close> with
  priority 5, whatever the tick holds.
\<close>

theorem MarketAgent_one_trade_proposal:
  "\<exists>p. MarketAgent_on_tick ev aid (JObj tick) s =
          Inr (s\<lparr>streams := (streams s)(PROPOSAL_STREAM := streams s PROPOSAL_STREAM @
                    [(next_id (streams s PROPOSAL_STREAM), [(''data'', Utf8 (json_dumps (JObj p)))])]),
                 draws := Suc (draws s),
                 logged := logged s @ [''MarketAgent proposed''],
                 journal := journal s @
                    [XAdd PROPOSAL_STREAM [(''data'', Utf8 (json_dumps (JObj p)))]]\<rparr>)
       \<and> dict_get p ''type'' = JStr ''trade'' \<and> dict_get p ''priority'' = JInt 5"
proof -
  obtain p where p: "market_proposal ev aid (draws s) tick = JObj p"
    and "dict_get p ''type'' = JStr ''trade''" and "dict_get p ''priority'' = JInt 5"
    by (simp add: market_proposal_def dict_get_def Let_def)
  then show ?thesis
    by (intro exI [of _ p]) (simp add: MarketAgent_on_tick_def xadd_def)
qed

lemma truthy_negative: "negative_price v \<Longrightarrow> truthy v \<and> lt_zero v = Inr True"
  by (induction v rule: negative_price.induct) auto

lemma nonnegative_no_halt: "nonnegative_price v \<Longrightarrow> \<not> truthy v \<or> lt_zero v = Inr False"
  by (induction v rule: nonnegative_price.induct) auto

text \<open>
  C4. On a tick whose price is negative, RiskAgent appends exactly one Proposal of type
  \<open>halt\<close> with priority 10 to the proposal topic; on a tick whose price is greater than or
  equal to zero it leaves the system as it is.
\<close>

theorem RiskAgent_halt_iff_negative:
  "(negative_price (dict_get tick ''price'') \<longrightarrow>
      (\<exists>p. RiskAgent_on_tick ev aid (JObj tick) s =
          Inr (s\<lparr>streams := (streams s)(PROPOSAL_STREAM := streams s PROPOSAL_STREAM @
                    [(next_id (streams s PROPOSAL_STREAM), [(''data'', Utf8 (json_dumps (JObj p)))])]),
                 draws := Suc (draws s),
                 logged := logged s @ [''RiskAgent proposed''],
                 journal := journal s @
                    [XAdd PROPOSAL_STREAM [(''data'', Utf8 (json_dumps (JObj p)))]]\<rparr>)
        \<and> dict_get p ''type'' = JStr ''halt'' \<and> dict_get p ''priority'' = JInt 10))
   \<and> (nonnegative_price (dict_get tick ''price'') \<longrightarrow>
        RiskAgent_on_tick ev aid (JObj tick) s = Inr s)"
proof (intro conjI impI)
  assume "negative_price (dict_get tick ''price'')"
  then have "truthy (dict_get tick ''price'') \<and> lt_zero (dict_get tick ''price'') = Inr True"
    by (rule truthy_negative)
  moreover obtain p where p: "risk_proposal ev aid (draws s) tick = JObj p"
    and "dict_get p ''type'' = JStr ''halt''" and "dict_get p ''priority'' = JInt 10"
    by (simp add: risk_proposal_def dict_get_def Let_def)
  ultimately show "\<exists>p. RiskAgent_on_tick ev aid (JObj tick) s =
          Inr (s\<lparr>streams := (streams s)(PROPOSAL_STREAM := streams s PROPOSAL_STREAM @
                    [(next_id (streams s PROPOSAL_STREAM), [(''data'', Utf8 (json_dumps (JObj p)))])]),
                 draws := Suc (draws s),
                 logged := logged s @ [''RiskAgent proposed''],
                 journal := journal s @
                    [XAdd PROPOSAL_STREAM [(''data'', Utf8 (json_dumps (JObj p)))]]\<rparr>)
        \<and> dict_get p ''type'' = JStr ''halt'' \<and> dict_get p ''priority'' = JInt 10"
    by (intro exI [of _ p]) (simp add: RiskAgent_on_tick_def xadd_def Let_def)
next
  assume "nonnegative_price (dict_get tick ''price'')"
  then have "\<not> truthy (dict_get tick ''price'') \<or> lt_zero (dict_get tick ''price'') = Inr False"
    by (rule nonnegative_no_halt)
  then show "RiskAgent_on_tick ev aid (JObj tick) s = Inr s"
    by (auto simp: RiskAgent_on_tick_def Let_def)
qed

theorem RiskAgent_halt_iff_negative_witness:
  "negative_price (dict_get [(''symbol'', JStr ''X''), (''price'', JFloat (Finite (- 1)))] ''price'')
   \<and> streams (projr (RiskAgent_on_tick env0 ''agent.risk.1''
        (JObj [(''symbol'', JStr ''X''), (''price'', JFloat (Finite (- 1)))]) sys0)) PROPOSAL_STREAM
       = [(1, [(''data'', Utf8 (Dumped (JObj
            [(''proposal_id'', JStr ''id-''), (''agent_id'', JStr ''agent.risk.1''),
             (''timestamp'', JInt 1000), (''type'', JStr ''halt''),
             (''payload'', JObj [(''reason'', JStr ''price anomaly''), (''symbol'', JStr ''X'')]),
             (''priority'', JInt 10)])))])]
   \<and> nonnegative_price (dict_get [(''symbol'', JStr ''X''), (''price'', JInt 3)] ''price'')
   \<and> RiskAgent_on_tick env0 ''agent.risk.1'' (JObj [(''symbol'', JStr ''X''), (''price'', JInt 3)]) sys0
       = Inr sys0"
  using RiskAgent_halt_iff_negative [of "[(''symbol'', JStr ''X''), (''price'', JFloat (Finite (- 1)))]"
          env0 "''agent.risk.1''" sys0]
        RiskAgent_halt_iff_negative [of "[(''symbol'', JStr ''X''), (''price'', JInt 3)]"
          env0 "''agent.risk.1''" sys0]
  by (simp add: dict_get_def RiskAgent_on_tick_def risk_proposal_def xadd_def next_id_def
        json_dumps_def env0_def sys0_def Let_def)

section \<open>Policy Evaluator\<close>

lemma governance_policy_obj:
  assumes "dict_item kvs ''proposal_id'' = Inr pid" and "dict_item kvs ''timestamp'' = Inr ts"
  shows "governance_policy (JObj kvs) =
     Inr (JObj [(''action_id'', pid), (''proposal_id'', pid), (''timestamp'', ts),
                (''status'', JStr (if dict_get kvs ''type'' = JStr ''trade'' then ''applied'' else ''rejected'')),
                (''result'', if dict_get kvs ''type'' = JStr ''trade''
                    then JObj [(''executed'', JBool True), (''info'', JStr ''auto-approved demo'')]
                    else JObj [(''reason'', JStr ''unsupported proposal type in demo'')])],
          JObj [(''event'', JStr (if dict_get kvs ''type'' = JStr ''trade''
                    then ''proposal_approved'' else ''proposal_rejected'')),
                (''proposal'', JObj kvs)])"
  using assms by (simp add: governance_policy_def)

lemma governance_policy_cases:
  assumes "governance_policy proposal = Inr (action, audit)"
  obtains kvs pid ts where "proposal = JObj kvs"
    and "dict_item kvs ''proposal_id'' = Inr pid" and "dict_item kvs ''timestamp'' = Inr ts"
proof -
  from assms obtain kvs where k: "proposal = JObj kvs"
    by (cases proposal) (simp_all add: governance_policy_def)
  from assms k obtain pid where p: "dict_item kvs ''proposal_id'' = Inr pid"
    by (cases "dict_item kvs ''proposal_id''") (simp_all add: governance_policy_def split: if_splits)
  from assms k p obtain ts where "dict_item kvs ''timestamp'' = Inr ts"
    by (cases "dict_item kvs ''timestamp''") (simp_all add: governance_policy_def split: if_splits)
  with k p that show thesis by blast
qed

lemma xadd_twice_streams:
  "streams (xadd AUDIT_STREAM b (xadd EXEC_STREAM a s)) =
     (streams s)(EXEC_STREAM := streams s EXEC_STREAM @ [(next_id (streams s EXEC_STREAM), a)],
                 AUDIT_STREAM := streams s AUDIT_STREAM @ [(next_id (streams s AUDIT_STREAM), b)])"
  by (simp add: xadd_def)

text \<open>
  C1 (amended). For a proposal that carries \<open>proposal_id\<close> and \<open>timestamp\<close>, the Policy
  Evaluator appends exactly one Action and exactly one AuditEvent, and what they say is
  fixed by whether \<open>type\<close> is \<open>trade\<close>: status \<open>applied\<close>, result
  \<open>{executed: true, info: "auto-approved demo"}\<close> and event \<open>proposal_approved\<close> for a trade;
  status \<open>rejected\<close>, result \<open>{reason: "unsupported proposal type in demo"}\<close> and event
  \<open>proposal_rejected\<close> for any other type.
\<close>

theorem policy_decides_by_type:
  assumes "dict_item kvs ''proposal_id'' = Inr pid" and "dict_item kvs ''timestamp'' = Inr ts"
  shows "\<exists>action audit s'.
      governance_entries [(eid, [(''data'', Utf8 (json_dumps (JObj kvs)))])] s = (None, s')
    \<and> streams s' = (streams s)
         (EXEC_STREAM := streams s EXEC_STREAM @
            [(next_id (streams s EXEC_STREAM), [(''data'', Utf8 (json_dumps (JObj action)))])],
          AUDIT_STREAM := streams s AUDIT_STREAM @
            [(next_id (streams s AUDIT_STREAM), [(''data'', Utf8 (json_dumps (JObj audit)))])])
    \<and> dict_get action ''status'' =
         JStr (if dict_get kvs ''type'' = JStr ''trade'' then ''applied'' else ''rejected'')
    \<and> dict_get action ''result'' =
         (if dict_get kvs ''type'' = JStr ''trade''
          then JObj [(''executed'', JBool True), (''info'', JStr ''auto-approved demo'')]
          else JObj [(''reason'', JStr ''unsupported proposal type in demo'')])
    \<and> dict_get audit ''event'' =
         JStr (if dict_get kvs ''type'' = JStr ''trade''
               then ''proposal_approved'' else ''proposal_rejected'')"
proof -
  let ?t = "dict_get kvs ''type'' = JStr ''trade''"
  let ?action = "[(''action_id'', pid), (''proposal_id'', pid), (''timestamp'', ts),
                (''status'', JStr (if ?t then ''applied'' else ''rejected'')),
                (''result'', if ?t
                    then JObj [(''executed'', JBool True), (''info'', JStr ''auto-approved demo'')]
                    else JObj [(''reason'', JStr ''unsupported proposal type in demo'')])]"
  let ?audit = "[(''event'', JStr (if ?t then ''proposal_approved'' else ''proposal_rejected'')),
                (''proposal'', JObj kvs)]"
  have w: "governance_writes (JObj kvs) =
      Inr [XAdd EXEC_STREAM [(''data'', Utf8 (json_dumps (JObj ?action)))],
           XAdd AUDIT_STREAM [(''data'', Utf8 (json_dumps (JObj ?audit)))]]"
    by (simp add: governance_writes_def governance_policy_obj [OF assms])
  let ?s' = "(xadd AUDIT_STREAM [(''data'', Utf8 (json_dumps (JObj ?audit)))]
               (xadd EXEC_STREAM [(''data'', Utf8 (json_dumps (JObj ?action)))] s))
             \<lparr>last_id := At eid, logged := logged s @ governance_info (JObj kvs)\<rparr>"
  have run: "governance_entries [(eid, [(''data'', Utf8 (json_dumps (JObj kvs)))])] s = (None, ?s')"
    by (simp add: w json_dumps_def [of "JObj kvs"])
  have st: "dict_get ?action ''status'' = JStr (if ?t then ''applied'' else ''rejected'')"
    by (simp add: dict_get_def)
  have res: "dict_get ?action ''result'' = (if ?t
                    then JObj [(''executed'', JBool True), (''info'', JStr ''auto-approved demo'')]
                    else JObj [(''reason'', JStr ''unsupported proposal type in demo'')])"
    by (simp add: dict_get_def)
  have evt: "dict_get ?audit ''event'' =
      JStr (if ?t then ''proposal_approved'' else ''proposal_rejected'')"
    by (simp add: dict_get_def)
  have str: "streams ?s' = (streams s)
         (EXEC_STREAM := streams s EXEC_STREAM @
            [(next_id (streams s EXEC_STREAM), [(''data'', Utf8 (json_dumps (JObj ?action)))])],
          AUDIT_STREAM := streams s AUDIT_STREAM @
            [(next_id (streams s AUDIT_STREAM), [(''data'', Utf8 (json_dumps (JObj ?audit)))])])"
    by (simp add: xadd_twice_streams)
  from run str st res evt show ?thesis
    by blast
qed

theorem policy_decides_by_type_witness:
  "dict_item [(''proposal_id'', JStr ''p-3''), (''timestamp'', JInt 7), (''type'', JStr ''trade'')]
      ''proposal_id'' = Inr (JStr ''p-3'')
   \<and> dict_item [(''proposal_id'', JStr ''p-3''), (''timestamp'', JInt 7), (''type'', JStr ''trade'')]
      ''timestamp'' = Inr (JInt 7)
   \<and> emitted EXEC_STREAM (snd (governance_entries [(4, [(''data'', Utf8 (json_dumps (JObj
        [(''proposal_id'', JStr ''p-3''), (''timestamp'', JInt 7), (''type'', JStr ''trade'')])))])] sys0))
      = [Some (JObj [(''action_id'', JStr ''p-3''), (''proposal_id'', JStr ''p-3''),
           (''timestamp'', JInt 7), (''status'', JStr ''applied''),
           (''result'', JObj [(''executed'', JBool True), (''info'', JStr ''auto-approved demo'')])])]
   \<and> emitted AUDIT_STREAM (snd (governance_entries [(4, [(''data'', Utf8 (json_dumps (JObj
        [(''proposal_id'', JStr ''p-3''), (''timestamp'', JInt 7), (''type'', JStr ''trade'')])))])] sys0))
      = [Some (JObj [(''event'', JStr ''proposal_approved''), (''proposal'', JObj
           [(''proposal_id'', JStr ''p-3''), (''timestamp'', JInt 7), (''type'', JStr ''trade'')])])]"
proof -
  have p: "dict_item [(''proposal_id'', JStr ''p-3''), (''timestamp'', JInt 7), (''type'', JStr ''trade'')]
      ''proposal_id'' = Inr (JStr ''p-3'')"
    by (simp add: dict_item_def)
  have t: "dict_item [(''proposal_id'', JStr ''p-3''), (''timestamp'', JInt 7), (''type'', JStr ''trade'')]
      ''timestamp'' = Inr (JInt 7)"
    by (simp add: dict_item_def)
  show ?thesis
    using p t policy_decides_by_type [OF p t, of 4 sys0]
    by (simp add: emitted_def sys0_def json_dumps_def dict_get_def dict_item_def
          governance_writes_def governance_policy_def xadd_def next_id_def)
qed

text \<open>
  The claim as stated fails on the result it names: a \<open>halt\<close> proposal is rejected with the
  reason \<open>unsupported proposal type in demo\<close>, and the result of an approved trade carries
  an \<open>info\<close> field beside \<open>executed\<close>.
\<close>

theorem policy_result_counterexample:
  "emitted EXEC_STREAM (snd (governance_entries [(1, [(''data'', Utf8 (json_dumps halt_proposal))])] sys0))
     = [Some (JObj [(''action_id'', JStr ''p-1''), (''proposal_id'', JStr ''p-1''),
          (''timestamp'', JInt 1000), (''status'', JStr ''rejected''),
          (''result'', JObj [(''reason'', JStr ''unsupported proposal type in demo'')])])]
   \<and> JObj [(''reason'', JStr ''unsupported proposal type in demo'')]
        \<noteq> JObj [(''reason'', JStr ''unsupported type'')]
   \<and> emitted EXEC_STREAM (snd (governance_entries [(1, [(''data'', Utf8 (json_dumps trade_proposal))])] sys0))
     = [Some (JObj [(''action_id'', JStr ''p-2''), (''proposal_id'', JStr ''p-2''),
          (''timestamp'', JInt 1001), (''status'', JStr ''applied''),
          (''result'', JObj [(''executed'', JBool True), (''info'', JStr ''auto-approved demo'')])])]
   \<and> JObj [(''executed'', JBool True), (''info'', JStr ''auto-approved demo'')]
        \<noteq> JObj [(''executed'', JBool True)]"
  by (simp add: emitted_def sys0_def json_dumps_def halt_proposal_def trade_proposal_def
        governance_writes_def governance_policy_def dict_get_def dict_item_def xadd_def next_id_def)

lemma resolves_one_of_mono:
  "set es \<subseteq> set es' \<Longrightarrow> list_all (resolves_one_of es) new \<Longrightarrow> list_all (resolves_one_of es') new"
  unfolding list_all_iff resolves_one_of_def list_ex_iff by blast

lemma fold_perform_draws: "draws (fold perform ws s) = draws s"
proof (induction ws arbitrary: s)
  case Nil
  show ?case by simp
next
  case (Cons w ws)
  have "draws (perform w s) = draws s" by (cases w) (simp_all add: xadd_def)
  with Cons.IH [of "perform w s"] show ?case by simp
qed

lemma governance_step:
  assumes "map_of flds ''data'' = Some (Utf8 (Dumped proposal))"
    and "governance_policy proposal = Inr (action, audit)"
  shows "governance_entries ((eid, flds) # es) s =
     governance_entries es
       ((xadd AUDIT_STREAM [(''data'', Utf8 (json_dumps audit))]
          (xadd EXEC_STREAM [(''data'', Utf8 (json_dumps action))] s))
        \<lparr>last_id := At eid, logged := logged s @ governance_info proposal\<rparr>)"
  using assms by (simp add: governance_writes_def)

lemma governance_skip:
  assumes "map_of flds ''data'' = Some (Utf8 (Dumped proposal))"
    and "governance_policy proposal = Inl e"
  shows "governance_entries ((eid, flds) # es) s = (Some e, s)"
  using assms by (simp add: governance_writes_def)

lemma governance_policy_copies:
  assumes "governance_policy proposal = Inr (action, audit)"
  shows "copies_from proposal action"
proof -
  from assms obtain kvs pid ts where k: "proposal = JObj kvs"
    and p: "dict_item kvs ''proposal_id'' = Inr pid" and t: "dict_item kvs ''timestamp'' = Inr ts"
    by (rule governance_policy_cases)
  from assms have "action = JObj [(''action_id'', pid), (''proposal_id'', pid), (''timestamp'', ts),
      (''status'', JStr (if dict_get kvs ''type'' = JStr ''trade'' then ''applied'' else ''rejected'')),
      (''result'', if dict_get kvs ''type'' = JStr ''trade''
          then JObj [(''executed'', JBool True), (''info'', JStr ''auto-approved demo'')]
          else JObj [(''reason'', JStr ''unsupported proposal type in demo'')])]"
    unfolding k governance_policy_obj [OF p t] by simp
  then show ?thesis
    by (simp add: copies_from_def k p t) (simp add: dict_item_def)
qed

lemma governance_entries_copies:
  "\<exists>new. streams (snd (governance_entries es s)) EXEC_STREAM = streams s EXEC_STREAM @ new
     \<and> list_all (resolves_one_of es) new
     \<and> draws (snd (governance_entries es s)) = draws s"
proof (induction es arbitrary: s)
  case Nil
  show ?case by simp
next
  case (Cons e es)
  obtain eid flds where e: "e = (eid, flds)" by (cases e)
  have sub: "set es \<subseteq> set (e # es)" by auto
  consider (nodata) "map_of flds ''data'' = None"
    | (bad) "map_of flds ''data'' = Some BadBytes"
    | (notjson) t where "map_of flds ''data'' = Some (Utf8 (NotJson t))"
    | (refused) p err where "map_of flds ''data'' = Some (Utf8 (Dumped p))" "governance_policy p = Inl err"
    | (decided) p action audit where "map_of flds ''data'' = Some (Utf8 (Dumped p))"
        "governance_policy p = Inr (action, audit)"
  proof (cases "map_of flds ''data''")
    case None
    then show ?thesis by (rule nodata)
  next
    case (Some b)
    show ?thesis
    proof (cases b)
      case BadBytes
      with Some show ?thesis by (intro bad) simp
    next
      case (Utf8 raw)
      show ?thesis
      proof (cases raw)
        case (NotJson t)
        with Some Utf8 show ?thesis by (intro notjson) simp
      next
        case (Dumped p)
        show ?thesis
        proof (cases "governance_policy p")
          case (Inl err)
          with Some Utf8 Dumped show ?thesis by (intro refused) simp_all
        next
          case (Inr r)
          obtain action audit where "r = (action, audit)" by (cases r)
          with Inr Some Utf8 Dumped show ?thesis by (intro decided) simp_all
        qed
      qed
    qed
  qed
  then show ?case
  proof cases
    case nodata
    from Cons.IH [of s] obtain new where
      "streams (snd (governance_entries es s)) EXEC_STREAM = streams s EXEC_STREAM @ new"
      "list_all (resolves_one_of es) new" "draws (snd (governance_entries es s)) = draws s"
      by blast
    with nodata resolves_one_of_mono [OF sub] show ?thesis
      unfolding e by (intro exI [of _ new]) simp
  next
    case bad
    then show ?thesis unfolding e by (intro exI [of _ "[]"]) simp
  next
    case (notjson t)
    then show ?thesis unfolding e by (intro exI [of _ "[]"]) simp
  next
    case (refused p err)
    then show ?thesis unfolding e by (intro exI [of _ "[]"]) (simp add: governance_writes_def)
  next
    case (decided p action audit)
    let ?a = "(next_id (streams s EXEC_STREAM), [(''data'', Utf8 (json_dumps action))])"
    let ?s1 = "(xadd AUDIT_STREAM [(''data'', Utf8 (json_dumps audit))]
          (xadd EXEC_STREAM [(''data'', Utf8 (json_dumps action))] s))
        \<lparr>last_id := At eid, logged := logged s @ governance_info p\<rparr>"
    have step: "governance_entries (e # es) s = governance_entries es ?s1"
      unfolding e using decided by (rule governance_step)
    have s1: "streams ?s1 EXEC_STREAM = streams s EXEC_STREAM @ [?a]" and d1: "draws ?s1 = draws s"
      by (simp_all add: xadd_def)
    from Cons.IH [of ?s1] obtain new where
      n1: "streams (snd (governance_entries es ?s1)) EXEC_STREAM = streams ?s1 EXEC_STREAM @ new"
      and n2: "list_all (resolves_one_of es) new"
      and n3: "draws (snd (governance_entries es ?s1)) = draws ?s1"
      by blast
    have "copies_from p action" using decided(2) by (rule governance_policy_copies)
    then have "resolves_one_of (e # es) ?a"
      unfolding e using decided(1) by (simp add: resolves_one_of_def json_dumps_def)
    with n2 resolves_one_of_mono [OF sub] have "list_all (resolves_one_of (e # es)) (?a # new)"
      by simp
    moreover have "streams (snd (governance_entries (e # es) s)) EXEC_STREAM =
        streams s EXEC_STREAM @ (?a # new)"
      unfolding step n1 s1 by simp
    moreover have "draws (snd (governance_entries (e # es) s)) = draws s"
      unfolding step n3 d1 ..
    ultimately show ?thesis by blast
  qed
qed

lemma for_streams_governance_copies:
  "\<exists>new. streams (snd (for_streams governance_entries resp s)) EXEC_STREAM = streams s EXEC_STREAM @ new
     \<and> list_all (resolves_one_of (concat (map snd resp))) new
     \<and> draws (snd (for_streams governance_entries resp s)) = draws s"
proof (induction resp arbitrary: s)
  case Nil
  show ?case by simp
next
  case (Cons r resp)
  obtain name es where r: "r = (name, es)" by (cases r)
  obtain out s1 where g: "governance_entries es s = (out, s1)" by (cases "governance_entries es s")
  from governance_entries_copies [of es s] obtain new1 where
    a1: "streams s1 EXEC_STREAM = streams s EXEC_STREAM @ new1"
    and a2: "list_all (resolves_one_of es) new1" and a3: "draws s1 = draws s"
    by (auto simp: g)
  have m1: "list_all (resolves_one_of (concat (map snd (r # resp)))) new1"
    using a2 by (rule resolves_one_of_mono [rotated]) (simp add: r)
  show ?case
  proof (cases out)
    case (Some err)
    with g a1 m1 a3 show ?thesis unfolding r by (intro exI [of _ new1]) simp
  next
    case None
    from Cons.IH [of s1] obtain new2 where
      b1: "streams (snd (for_streams governance_entries resp s1)) EXEC_STREAM = streams s1 EXEC_STREAM @ new2"
      and b2: "list_all (resolves_one_of (concat (map snd resp))) new2"
      and b3: "draws (snd (for_streams governance_entries resp s1)) = draws s1"
      by blast
    have m2: "list_all (resolves_one_of (concat (map snd (r # resp)))) new2"
      using b2 by (rule resolves_one_of_mono [rotated]) (simp add: r)
    from None g a1 a3 b1 b3 m1 m2 show ?thesis
      unfolding r by (intro exI [of _ "new1 @ new2"]) simp
  qed
qed

lemma poll_fields:
  "streams (poll msg body resp s) = streams (snd (for_streams body resp s))"
  "draws (poll msg body resp s) = draws (snd (for_streams body resp s))"
  "journal (poll msg body resp s) = journal (snd (for_streams body resp s))"
  by (cases "for_streams body resp s"; cases resp; simp add: poll_def split: option.splits)+

text \<open>
  C10. Every Action the Policy Evaluator appends in a pass carries the \<open>proposal_id\<close> of a
  proposal of the batch as its \<open>action_id\<close> and its \<open>proposal_id\<close>, and that proposal's
  \<open>timestamp\<close> as its \<open>timestamp\<close>; the pass draws no identifier and reads no clock. For a
  proposal that carries both fields, approved or rejected, the pass appends exactly one
  such Action.
\<close>

theorem action_copies_proposal_id_and_timestamp:
  "(\<exists>new. streams (governance_loop resp s) EXEC_STREAM = streams s EXEC_STREAM @ new
        \<and> list_all (resolves_one_of (concat (map snd resp))) new
        \<and> draws (governance_loop resp s) = draws s)
   \<and> (dict_item kvs ''proposal_id'' = Inr pid \<longrightarrow> dict_item kvs ''timestamp'' = Inr ts \<longrightarrow>
       (\<exists>a. streams (governance_loop [(name, [(eid, [(''data'', Utf8 (json_dumps (JObj kvs)))])])] s)
              EXEC_STREAM
            = streams s EXEC_STREAM @
                [(next_id (streams s EXEC_STREAM), [(''data'', Utf8 (json_dumps (JObj a)))])]
          \<and> dict_item a ''action_id'' = Inr pid
          \<and> dict_item a ''proposal_id'' = Inr pid
          \<and> dict_item a ''timestamp'' = Inr ts))"
proof (intro conjI impI)
  show "\<exists>new. streams (governance_loop resp s) EXEC_STREAM = streams s EXEC_STREAM @ new
        \<and> list_all (resolves_one_of (concat (map snd resp))) new
        \<and> draws (governance_loop resp s) = draws s"
    using for_streams_governance_copies [of resp s]
    by (simp add: governance_loop_def poll_fields)
next
  assume p: "dict_item kvs ''proposal_id'' = Inr pid" and t: "dict_item kvs ''timestamp'' = Inr ts"
  let ?a = "[(''action_id'', pid), (''proposal_id'', pid), (''timestamp'', ts),
      (''status'', JStr (if dict_get kvs ''type'' = JStr ''trade'' then ''applied'' else ''rejected'')),
      (''result'', if dict_get kvs ''type'' = JStr ''trade''
          then JObj [(''executed'', JBool True), (''info'', JStr ''auto-approved demo'')]
          else JObj [(''reason'', JStr ''unsupported proposal type in demo'')])]"
  have "streams (governance_loop [(name, [(eid, [(''data'', Utf8 (json_dumps (JObj kvs)))])])] s)
              EXEC_STREAM
      = streams s EXEC_STREAM @
          [(next_id (streams s EXEC_STREAM), [(''data'', Utf8 (json_dumps (JObj ?a)))])]"
    by (simp add: governance_loop_def poll_fields governance_writes_def
          governance_policy_obj [OF p t] json_dumps_def [of "JObj kvs"] xadd_def)
  moreover have "dict_item ?a ''action_id'' = Inr pid" "dict_item ?a ''proposal_id'' = Inr pid"
    "dict_item ?a ''timestamp'' = Inr ts"
    by (simp_all add: dict_item_def)
  ultimately show "\<exists>a. streams (governance_loop [(name, [(eid, [(''data'', Utf8 (json_dumps (JObj kvs)))])])] s)
              EXEC_STREAM
            = streams s EXEC_STREAM @
                [(next_id (streams s EXEC_STREAM), [(''data'', Utf8 (json_dumps (JObj a)))])]
          \<and> dict_item a ''action_id'' = Inr pid
          \<and> dict_item a ''proposal_id'' = Inr pid
          \<and> dict_item a ''timestamp'' = Inr ts"
    by blast
qed

theorem action_copies_proposal_id_and_timestamp_witness:
  "dict_item [(''proposal_id'', JStr ''p-3''), (''timestamp'', JInt 7), (''type'', JStr ''halt'')]
      ''proposal_id'' = Inr (JStr ''p-3'')
   \<and> dict_item [(''proposal_id'', JStr ''p-3''), (''timestamp'', JInt 7), (''type'', JStr ''halt'')]
      ''timestamp'' = Inr (JInt 7)
   \<and> emitted EXEC_STREAM (governance_loop [(PROPOSAL_STREAM, [(4, [(''data'', Utf8 (json_dumps (JObj
        [(''proposal_id'', JStr ''p-3''), (''timestamp'', JInt 7), (''type'', JStr ''halt'')])))])])] sys0)
      = [Some (JObj [(''action_id'', JStr ''p-3''), (''proposal_id'', JStr ''p-3''),
           (''timestamp'', JInt 7), (''status'', JStr ''rejected''),
           (''result'', JObj [(''reason'', JStr ''unsupported proposal type in demo'')])])]
   \<and> draws (governance_loop [(PROPOSAL_STREAM, [(4, [(''data'', Utf8 (json_dumps (JObj
        [(''proposal_id'', JStr ''p-3''), (''timestamp'', JInt 7), (''type'', JStr ''halt'')])))])])] sys0)
      = 0"
proof -
  have p: "dict_item [(''proposal_id'', JStr ''p-3''), (''timestamp'', JInt 7), (''type'', JStr ''halt'')]
      ''proposal_id'' = Inr (JStr ''p-3'')"
    by (simp add: dict_item_def)
  have t: "dict_item [(''proposal_id'', JStr ''p-3''), (''timestamp'', JInt 7), (''type'', JStr ''halt'')]
      ''timestamp'' = Inr (JInt 7)"
    by (simp add: dict_item_def)
  note th = action_copies_proposal_id_and_timestamp
    [of "[(PROPOSAL_STREAM, [(4, [(''data'', Utf8 (json_dumps (JObj
        [(''proposal_id'', JStr ''p-3''), (''timestamp'', JInt 7), (''type'', JStr ''halt'')])))])])]"
      sys0 "[(''proposal_id'', JStr ''p-3''), (''timestamp'', JInt 7), (''type'', JStr ''halt'')]"
      "JStr ''p-3''" "JInt 7" PROPOSAL_STREAM 4]
  from th have d: "draws (governance_loop [(PROPOSAL_STREAM, [(4, [(''data'', Utf8 (json_dumps (JObj
        [(''proposal_id'', JStr ''p-3''), (''timestamp'', JInt 7), (''type'', JStr ''halt'')])))])])] sys0)
      = draws sys0"
    by blast
  have e: "emitted EXEC_STREAM (governance_loop [(PROPOSAL_STREAM, [(4, [(''data'', Utf8 (json_dumps (JObj
        [(''proposal_id'', JStr ''p-3''), (''timestamp'', JInt 7), (''type'', JStr ''halt'')])))])])] sys0)
      = [Some (JObj [(''action_id'', JStr ''p-3''), (''proposal_id'', JStr ''p-3''),
           (''timestamp'', JInt 7), (''status'', JStr ''rejected''),
           (''result'', JObj [(''reason'', JStr ''unsupported proposal type in demo'')])])]"
    by (simp add: emitted_def governance_loop_def poll_def sys0_def json_dumps_def dict_get_def
          dict_item_def governance_writes_def governance_policy_def xadd_def next_id_def)
  from p t d e show ?thesis by (simp add: sys0_def)
qed




lemma journal_fold_perform:
  "journal (fold perform ws s) = journal s @ filter (\<lambda>w. \<forall>m. w \<noteq> Log m) ws"
proof (induction ws arbitrary: s)
  case Nil
  show ?case by simp
next
  case (Cons w ws)
  show ?case by (cases w) (simp_all add: Cons.IH xadd_def)
qed








section \<open>Execution Applier\<close>

lemma execution_loop_obj:
  "execution_loop [(name, [(eid, [(''data'', Utf8 (json_dumps (JObj a)))])])] s =
       (xadd AUDIT_STREAM
           [(''data'', Utf8 (json_dumps (JObj [(''event'', JStr ''action_executed''),
                                               (''action'', JObj a)])))]
           (perform (FileAppend (json_dumps (JObj a))) s))
        \<lparr>last_id := At eid, logged := logged s @ [''Executed action'']\<rparr>"
  by (simp add: execution_loop_def poll_def execution_writes_def json_dumps_def xadd_def)

text \<open>
  C7 (amended). The Execution Applier makes no check against the action id: every delivery
  of the same Action entry re-applies the effect and appends one more \<open>action_executed\<close>
  AuditEvent, so \<open>k\<close> deliveries leave \<open>k\<close> log lines and \<open>k\<close> completion AuditEvents.
\<close>

theorem redelivery_repeats_completion_event:
  "emitted AUDIT_STREAM
     ((execution_loop [(EXEC_STREAM, [(eid, [(''data'', Utf8 (json_dumps (JObj a)))])])] ^^ k) s)
     = emitted AUDIT_STREAM s @
         replicate k (Some (JObj [(''event'', JStr ''action_executed''), (''action'', JObj a)]))
   \<and> logfile
     ((execution_loop [(EXEC_STREAM, [(eid, [(''data'', Utf8 (json_dumps (JObj a)))])])] ^^ k) s)
     = logfile s @ replicate k (json_dumps (JObj a))"
proof (induction k)
  case 0
  show ?case by simp
next
  case (Suc k)
  let ?d = "JObj [(''event'', JStr ''action_executed''), (''action'', JObj a)]"
  let ?f = "execution_loop [(EXEC_STREAM, [(eid, [(''data'', Utf8 (json_dumps (JObj a)))])])]"
  have e1: "emitted AUDIT_STREAM (?f x) = emitted AUDIT_STREAM x @ [Some ?d]" for x
    by (subst execution_loop_obj) (simp add: emitted_def xadd_def json_dumps_def)
  have l1: "logfile (?f x) = logfile x @ [json_dumps (JObj a)]" for x
    by (subst execution_loop_obj) (simp add: xadd_def)
  from Suc.IH show ?case
    by (simp only: funpow.simps o_apply e1 l1 append_assoc replicate_append_same append_Cons append_Nil
        replicate_Suc [symmetric] simp_thms)
qed

text \<open>
  The claim as stated fails: the same entry delivered in two polls yields two completion
  AuditEvents, where one delivery yields one.
\<close>

theorem redelivery_counterexample:
  "emitted AUDIT_STREAM
     (execution_loop [(EXEC_STREAM, [(3, [(''data'', Utf8 (json_dumps (JObj applied_action)))])])]
       (execution_loop [(EXEC_STREAM, [(3, [(''data'', Utf8 (json_dumps (JObj applied_action)))])])] sys0))
     = [Some (JObj [(''event'', JStr ''action_executed''), (''action'', JObj applied_action)]),
        Some (JObj [(''event'', JStr ''action_executed''), (''action'', JObj applied_action)])]
   \<and> emitted AUDIT_STREAM
     (execution_loop [(EXEC_STREAM, [(3, [(''data'', Utf8 (json_dumps (JObj applied_action)))])])] sys0)
     = [Some (JObj [(''event'', JStr ''action_executed''), (''action'', JObj applied_action)])]"
  by (simp add: execution_loop_def poll_def emitted_def sys0_def json_dumps_def execution_writes_def
        xadd_def next_id_def)

section \<open>Decode errors and agent failures in the consumers\<close>

text \<open>
  What each consumer does with an entry whose payload is not JSON. The Agent dispatcher
  logs a warning and goes on with the rest of the batch from the state the entry found;
  the Policy Evaluator leaves the batch at that entry with nothing appended, and its
  loop-level handler logs the error.
\<close>

lemma malformed_entry_handling:
  assumes "map_of flds ''data'' = Some (Utf8 (NotJson t))"
  shows "manager_entries ev ((eid, flds) # es) s =
           manager_entries ev es (s\<lparr>logged := logged s @ [''Bad tick JSON'']\<rparr>)
       \<and> governance_entries ((eid, flds) # es) s = (Some JSONDecodeError, s)
       \<and> governance_loop [(name, (eid, flds) # es)] s =
           s\<lparr>logged := logged s @ [''Governance loop error'']\<rparr>"
  using assms by (simp add: governance_loop_def poll_def)

text \<open>
  C3. The claim says that a consumer skips an entry whose payload is not JSON, logs it and
  still moves its cursor past it, so that the entry is never read again. Evaluated on a
  malformed entry with id 7 read from cursor 6: the Agent dispatcher logs the warning but
  its cursor stays at 6, and the next read from 6 returns the entry again; the Policy
  Evaluator's cursor stays at 6 as well, its handler logs the error, and a valid proposal
  that follows the malformed entry in the batch is not evaluated.
\<close>

theorem malformed_entry_not_passed:
  "last_id (start_manager env0 [(TICK_STREAM, [malformed])] (sys0\<lparr>last_id := At 6\<rparr>)) = At 6
   \<and> logged (start_manager env0 [(TICK_STREAM, [malformed])] (sys0\<lparr>last_id := At 6\<rparr>))
       = [''Bad tick JSON'']
   \<and> xread_after 6 10 [malformed] = [malformed]
   \<and> last_id (governance_loop
        [(PROPOSAL_STREAM, [malformed, (8, [(''data'', Utf8 (json_dumps halt_proposal))])])]
        (sys0\<lparr>last_id := At 6\<rparr>)) = At 6
   \<and> logged (governance_loop
        [(PROPOSAL_STREAM, [malformed, (8, [(''data'', Utf8 (json_dumps halt_proposal))])])]
        (sys0\<lparr>last_id := At 6\<rparr>)) = [''Governance loop error'']
   \<and> emitted EXEC_STREAM (governance_loop
        [(PROPOSAL_STREAM, [malformed, (8, [(''data'', Utf8 (json_dumps halt_proposal))])])]
        (sys0\<lparr>last_id := At 6\<rparr>)) = []
   \<and> xread_after 6 10 [malformed, (8, [(''data'', Utf8 (json_dumps halt_proposal))])]
       = [malformed, (8, [(''data'', Utf8 (json_dumps halt_proposal))])]"
  by (simp add: start_manager_def governance_loop_def poll_def malformed_def xread_after_def
        sys0_def emitted_def)

lemma MarketAgent_on_tick_begin:
  "MarketAgent_on_tick ev a t s =
     (case MarketAgent_begin ev a t s of Inl e \<Rightarrow> Inl e | Inr (s1, ws) \<Rightarrow> Inr (fold perform ws s1))"
  by (cases t) (simp_all add: MarketAgent_on_tick_def MarketAgent_begin_def xadd_def)

lemma RiskAgent_on_tick_begin:
  "RiskAgent_on_tick ev a t s =
     (case RiskAgent_begin ev a t s of Inl e \<Rightarrow> Inl e | Inr (s1, ws) \<Rightarrow> Inr (fold perform ws s1))"
  by (cases t)
     (simp_all add: RiskAgent_on_tick_def RiskAgent_begin_def xadd_def Let_def
        split: sum.splits bool.splits)

lemma RiskAgent_begin_raises:
  "RiskAgent_begin ev a t s = Inl e \<longleftrightarrow> RiskAgent_on_tick ev a t s' = Inl e"
  by (cases t)
     (simp_all add: RiskAgent_on_tick_def RiskAgent_begin_def Let_def
        split: sum.splits bool.splits)

lemma gather_agents_obj:
  "gather (agents ev (JObj tick)) s =
     (case RiskAgent_on_tick ev ''agent.risk.1'' (JObj tick)
             (xadd PROPOSAL_STREAM
                [(''data'', Utf8 (json_dumps (market_proposal ev ''agent.market.1'' (draws s) tick)))]
                (s\<lparr>draws := Suc (draws s), logged := logged s @ [''MarketAgent proposed'']\<rparr>)) of
        Inr s2 \<Rightarrow> (None, s2)
      | Inl e \<Rightarrow> (Some e,
           s\<lparr>draws := Suc (draws s),
             inflight := inflight s @
               [XAdd PROPOSAL_STREAM
                  [(''data'', Utf8 (json_dumps (market_proposal ev ''agent.market.1'' (draws s) tick)))],
                Log ''MarketAgent proposed'']\<rparr>))"
  by (simp add: gather_def agents_def MarketAgent_begin_def RiskAgent_begin_def
        RiskAgent_on_tick_def xadd_def Let_def split: sum.splits bool.splits)

text \<open>
  C2 (amended). On one tick the dispatcher starts every registered agent. When no agent
  fails it waits for all of them: their proposals are appended, then the cursor moves to
  the tick and the batch goes on. When an agent fails, its exception leaves \<open>gather\<close> at
  once and reaches the loop-level handler, which logs it: the outcome is not captured per
  agent, the dispatcher does not wait for the sibling (MarketAgent's append is left in
  flight, neither cancelled nor awaited, and happens afterwards), the cursor does not move,
  and the remaining entries of the batch are not dispatched in that pass.
\<close>

theorem dispatch_propagates_first_failure:
  "(let pending = [XAdd PROPOSAL_STREAM
                     [(''data'', Utf8 (json_dumps (market_proposal ev ''agent.market.1'' (draws s) tick)))],
                   Log ''MarketAgent proposed''];
        s1 = fold perform pending (s\<lparr>draws := Suc (draws s)\<rparr>);
        sf = s\<lparr>draws := Suc (draws s), inflight := inflight s @ pending\<rparr>
    in case RiskAgent_on_tick ev ''agent.risk.1'' (JObj tick) s1 of
         Inr s2 \<Rightarrow>
           manager_entries ev ((eid, [(''data'', Utf8 (json_dumps (JObj tick)))]) # es) s =
             manager_entries ev es (s2\<lparr>last_id := At eid\<rparr>)
       | Inl e \<Rightarrow>
           manager_entries ev ((eid, [(''data'', Utf8 (json_dumps (JObj tick)))]) # es) s = (Some e, sf)
         \<and> start_manager ev [(TICK_STREAM, (eid, [(''data'', Utf8 (json_dumps (JObj tick)))]) # es)] s =
             sf\<lparr>logged := logged s @ [''Agent manager error'']\<rparr>
         \<and> (inflight s = [] \<longrightarrow>
              settle (sf\<lparr>logged := logged s @ [''Agent manager error'']\<rparr>) =
                s1\<lparr>logged := logged s @ [''Agent manager error'', ''MarketAgent proposed'']\<rparr>))"
proof -
  let ?pending = "[XAdd PROPOSAL_STREAM
                     [(''data'', Utf8 (json_dumps (market_proposal ev ''agent.market.1'' (draws s) tick)))],
                   Log ''MarketAgent proposed'']"
  let ?s1 = "fold perform ?pending (s\<lparr>draws := Suc (draws s)\<rparr>)"
  let ?sf = "s\<lparr>draws := Suc (draws s), inflight := inflight s @ ?pending\<rparr>"
  let ?e = "(eid, [(''data'', Utf8 (json_dumps (JObj tick)))])"
  have s1: "?s1 = xadd PROPOSAL_STREAM
                [(''data'', Utf8 (json_dumps (market_proposal ev ''agent.market.1'' (draws s) tick)))]
                (s\<lparr>draws := Suc (draws s), logged := logged s @ [''MarketAgent proposed'']\<rparr>)"
    by (simp add: xadd_def)
  show ?thesis
  proof (cases "RiskAgent_on_tick ev ''agent.risk.1'' (JObj tick) ?s1")
    case (Inr s2)
    then have "gather (agents ev (JObj tick)) s = (None, s2)"
      by (simp add: gather_agents_obj s1 [symmetric])
    with Inr show ?thesis
      by (simp add: Let_def json_dumps_def [of "JObj tick"])
  next
    case (Inl e)
    then have g: "gather (agents ev (JObj tick)) s = (Some e, ?sf)"
      by (simp add: gather_agents_obj s1 [symmetric])
    then have m: "manager_entries ev (?e # es) s = (Some e, ?sf)"
      by (simp add: json_dumps_def [of "JObj tick"])
    then have st: "start_manager ev [(TICK_STREAM, ?e # es)] s =
        ?sf\<lparr>logged := logged s @ [''Agent manager error'']\<rparr>"
      by (simp add: start_manager_def poll_def)
    have "inflight s = [] \<longrightarrow>
        settle (?sf\<lparr>logged := logged s @ [''Agent manager error'']\<rparr>) =
          ?s1\<lparr>logged := logged s @ [''Agent manager error'', ''MarketAgent proposed'']\<rparr>"
      by (simp add: settle_def xadd_def)
    with Inl m st show ?thesis
      by (simp add: Let_def)
  qed
qed

theorem dispatch_propagates_first_failure_witness:
  "inflight (sys0\<lparr>last_id := At 6\<rparr>) = []
   \<and> RiskAgent_on_tick env0 ''agent.risk.1'' (JObj [(''symbol'', JStr ''X''), (''price'', JStr ''abc'')])
        (fold perform
          [XAdd PROPOSAL_STREAM [(''data'', Utf8 (json_dumps (market_proposal env0 ''agent.market.1'' 0
              [(''symbol'', JStr ''X''), (''price'', JStr ''abc'')])))],
           Log ''MarketAgent proposed'']
          (sys0\<lparr>last_id := At 6, draws := Suc 0\<rparr>)) = Inl TypeError
   \<and> fst (manager_entries env0 [tick_text_price, tick_ok] (sys0\<lparr>last_id := At 6\<rparr>)) = Some TypeError
   \<and> emitted PROPOSAL_STREAM
        (start_manager env0 [(TICK_STREAM, [tick_text_price, tick_ok])] (sys0\<lparr>last_id := At 6\<rparr>)) = []
   \<and> emitted PROPOSAL_STREAM
        (settle (start_manager env0 [(TICK_STREAM, [tick_text_price, tick_ok])] (sys0\<lparr>last_id := At 6\<rparr>)))
       = [Some (market_proposal env0 ''agent.market.1'' 0 [(''symbol'', JStr ''X''), (''price'', JStr ''abc'')])]"
  using dispatch_propagates_first_failure
    [of env0 "sys0\<lparr>last_id := At 6\<rparr>" "[(''symbol'', JStr ''X''), (''price'', JStr ''abc'')]" 7 "[tick_ok]"]
  by (simp add: start_manager_def poll_def tick_text_price_def tick_ok_def agents_def gather_def
        MarketAgent_begin_def RiskAgent_begin_def RiskAgent_on_tick_def settle_def
        dict_get_def json_dumps_def xadd_def next_id_def emitted_def sys0_def Let_def)

text \<open>
  The claim as stated fails: a tick whose price is text makes RiskAgent raise; the error
  reaches the handler while MarketAgent's append is still in flight, the cursor stays
  before that tick, the following tick of the batch is not dispatched, and the next read
  returns the same two entries.
\<close>

theorem dispatch_failure_counterexample:
  "last_id (start_manager env0 [(TICK_STREAM, [tick_text_price, tick_ok])] (sys0\<lparr>last_id := At 6\<rparr>)) = At 6
   \<and> logged (start_manager env0 [(TICK_STREAM, [tick_text_price, tick_ok])] (sys0\<lparr>last_id := At 6\<rparr>))
       = [''Agent manager error'']
   \<and> emitted PROPOSAL_STREAM
        (start_manager env0 [(TICK_STREAM, [tick_text_price, tick_ok])] (sys0\<lparr>last_id := At 6\<rparr>)) = []
   \<and> inflight (start_manager env0 [(TICK_STREAM, [tick_text_price, tick_ok])] (sys0\<lparr>last_id := At 6\<rparr>))
       = [XAdd PROPOSAL_STREAM [(''data'', Utf8 (json_dumps (market_proposal env0 ''agent.market.1'' 0
              [(''symbol'', JStr ''X''), (''price'', JStr ''abc'')])))],
          Log ''MarketAgent proposed'']
   \<and> xread_after 6 10 [tick_text_price, tick_ok] = [tick_text_price, tick_ok]"
  by (simp add: start_manager_def poll_def tick_text_price_def tick_ok_def agents_def gather_def
        MarketAgent_begin_def RiskAgent_begin_def dict_get_def json_dumps_def xadd_def
        next_id_def emitted_def xread_after_def sys0_def Let_def)

section \<open>Replay player\<close>

lemma next_id_snoc: "next_id (es @ [(n, f)]) = Suc n"
  by (cases es) (simp_all add: next_id_def split: list.splits)

lemma publish_tick_stream:
  "\<exists>f. streams (publish_tick ev row s) TICK_STREAM =
          streams s TICK_STREAM @ [(next_id (streams s TICK_STREAM), f)]
       \<and> entry_timestamp (next_id (streams s TICK_STREAM), f) = Some (row_timestamp row)"
  by (simp add: publish_tick_def xadd_def Let_def entry_timestamp_def json_dumps_def dict_get_def)

lemma published_none: "out \<noteq> Finished \<Longrightarrow> published (row # rows) s (out, s) 0 []"
  by (simp add: published_def)

lemma published_nil: "published [] s (Finished, s) 0 []"
  by (simp add: published_def)

lemma published_step:
  assumes "published rows (publish_tick ev row s) r k new"
  shows "\<exists>f. published (row # rows) s r (Suc k) ((next_id (streams s TICK_STREAM), f) # new)"
proof -
  let ?old = "streams s TICK_STREAM"
  obtain f where s1: "streams (publish_tick ev row s) TICK_STREAM = ?old @ [(next_id ?old, f)]"
    and t1: "entry_timestamp (next_id ?old, f) = Some (row_timestamp row)"
    using publish_tick_stream by blast
  have nx: "next_id (streams (publish_tick ev row s) TICK_STREAM) = Suc (next_id ?old)"
    by (simp add: s1 next_id_snoc)
  have up: "[next_id ?old ..< next_id ?old + Suc k] =
        next_id ?old # [Suc (next_id ?old) ..< Suc (next_id ?old) + k]"
    by (simp add: upt_conv_Cons)
  from assms have a1: "streams (snd r) TICK_STREAM = (?old @ [(next_id ?old, f)]) @ new"
    and a2: "k \<le> length rows"
    and a3: "map fst new = [Suc (next_id ?old) ..< Suc (next_id ?old) + k]"
    and a4: "map entry_timestamp new = map (\<lambda>r. Some (row_timestamp r)) (take k rows)"
    and a5: "fst r = Finished \<longrightarrow> k = length rows"
    by (simp_all add: published_def nx s1 [symmetric])
  have "map fst ((next_id ?old, f) # new) = [next_id ?old ..< next_id ?old + Suc k]"
    unfolding up using a3 by simp
  moreover have "map entry_timestamp ((next_id ?old, f) # new) =
      map (\<lambda>r. Some (row_timestamp r)) (take (Suc k) (row # rows))"
    using a4 t1 by simp
  ultimately have "published (row # rows) s r (Suc k) ((next_id ?old, f) # new)"
    unfolding published_def using a1 a2 a5 by simp
  then show ?thesis ..
qed

lemma replay_fixed_published:
  "\<exists>k new. published rows s (replay_fixed ev wakes i rows s) k new"
proof (induction rows arbitrary: i s)
  case Nil
  show ?case using published_nil by auto
next
  case (Cons row rows)
  let ?s1 = "publish_tick ev row s"
  show ?case
  proof (cases "wakes i")
    case True
    from Cons.IH [of ?s1 "Suc i"] obtain k new where
      "published rows ?s1 (replay_fixed ev wakes (Suc i) rows ?s1) k new" by blast
    from published_step [OF this] True show ?thesis
      by (auto simp: Let_def)
  next
    case False
    have "published rows ?s1 (Hangs, ?s1) 0 []"
      by (simp add: published_def)
    from published_step [OF this] False show ?thesis
      by (auto simp: Let_def)
  qed
qed

lemma replay_realtime_published:
  "\<exists>k new. published rows s (replay_realtime ev speed wakes i prev rows s) k new"
proof (induction rows arbitrary: i prev s)
  case Nil
  show ?case using published_nil by auto
next
  case (Cons row rows)
  let ?s1 = "publish_tick ev row s"
  consider (raises) "prev \<noteq> None" "speed = Finite 0"
    | (hangs) "prev \<noteq> None" "speed \<noteq> Finite 0" "\<not> wakes i"
    | (goes) "\<not> (prev \<noteq> None \<and> speed = Finite 0)" "\<not> (prev \<noteq> None \<and> \<not> wakes i)"
    by blast
  then show ?case
  proof cases
    case raises
    then show ?thesis
      using published_none [of "Raised ZeroDivisionError" row rows s] by (auto simp: Let_def)
  next
    case hangs
    then show ?thesis
      using published_none [of Hangs row rows s] by (auto simp: Let_def)
  next
    case goes
    from Cons.IH [of ?s1 "Suc i" "Some (row_timestamp row)"] obtain k new where
      "published rows ?s1 (replay_realtime ev speed wakes (Suc i) (Some (row_timestamp row)) rows ?s1) k new"
      by blast
    from published_step [OF this] goes show ?thesis
      by (auto simp: Let_def)
  qed
qed

lemma replay_fixed_finishes:
  "(\<forall>j < length rows. wakes (i + j)) \<Longrightarrow> fst (replay_fixed ev wakes i rows s) = Finished"
proof (induction rows arbitrary: i s)
  case Nil
  show ?case by simp
next
  case (Cons row rows)
  from Cons.prems have w: "wakes i" by (auto dest: spec [of _ 0])
  have "\<forall>j < length rows. wakes (Suc i + j)"
    using Cons.prems by (auto dest: spec [of _ "Suc j" for j])
  from Cons.IH [OF this] w show ?case by (simp add: Let_def)
qed

lemma replay_realtime_finishes:
  "speed \<noteq> Finite 0 \<Longrightarrow> (\<forall>j < length rows. wakes (i + j)) \<Longrightarrow>
     fst (replay_realtime ev speed wakes i prev rows s) = Finished"
proof (induction rows arbitrary: i prev s)
  case Nil
  show ?case by simp
next
  case (Cons row rows)
  from Cons.prems(2) have w: "wakes i" by (auto dest: spec [of _ 0])
  have "\<forall>j < length rows. wakes (Suc i + j)"
    using Cons.prems(2) by (auto dest: spec [of _ "Suc j" for j])
  from Cons.IH [OF Cons.prems(1) this] w Cons.prems(1) show ?case by (simp add: Let_def)
qed

lemma sorted_arrangement_unique:
  assumes "sorted_wrt (<) (map row_timestamp rows)" and "sorts_by_timestamp sort_values rows"
  shows "sort_values rows = rows"
proof -
  let ?ys = "sort_values rows"
  from assms(2) have srt: "sorted (map row_timestamp ?ys)" and ms: "mset ?ys = mset rows"
    by (simp_all add: sorts_by_timestamp_def)
  from assms(1) have d: "distinct (map row_timestamp rows)" and s: "sorted (map row_timestamp rows)"
    by (simp_all add: strict_sorted_iff)
  from ms have mm: "mset (map row_timestamp ?ys) = mset (map row_timestamp rows)" by simp
  then have "distinct (map row_timestamp ?ys)"
    using d mset_eq_imp_distinct_iff by blast
  moreover from mm have "set (map row_timestamp ?ys) = set (map row_timestamp rows)"
    by (rule mset_eq_setD)
  ultimately have eq: "map row_timestamp ?ys = map row_timestamp rows"
    using srt s d by (intro sorted_distinct_set_unique)
  from d have "inj_on row_timestamp (set rows)" by (simp add: distinct_map)
  moreover from ms have "set ?ys = set rows" by (rule mset_eq_setD)
  ultimately have "inj_on row_timestamp (set ?ys \<union> set rows)" by simp
  with eq show ?thesis by (simp add: inj_on_map_eq_map)
qed

lemma run_player_published:
  "\<exists>k new. published (sort_values file) s (run_player ev sort_values wakes file speed realtime s) k new"
proof -
  let ?s0 = "s\<lparr>logged := logged s @ [''Loading ticks'', ''Loaded ticks'']\<rparr>"
  let ?df = "sort_values file"
  have lift: "published ?df ?s0 r k new \<Longrightarrow>
      published ?df s (case r of (Finished, s') \<Rightarrow> (Finished, s'\<lparr>logged := logged s' @ [''Replay finished'']\<rparr>)
                        | (out, s') \<Rightarrow> (out, s')) k new" for r k new
    by (cases r; cases "fst r") (auto simp: published_def)
  show ?thesis
  proof (cases realtime)
    case True
    from replay_realtime_published [of ?df ?s0 ev speed wakes 0 None] obtain k new where
      "published ?df ?s0 (replay_realtime ev speed wakes 0 None ?df ?s0) k new" by blast
    from lift [OF this] True show ?thesis
      by (auto simp: run_player_def Let_def)
  next
    case False
    show ?thesis
    proof (cases "speed = Finite 0")
      case True
      have "published ?df s (Raised ZeroDivisionError, ?s0) 0 []"
        by (simp add: published_def)
      with \<open>\<not> realtime\<close> True show ?thesis
        by (auto simp: run_player_def Let_def)
    next
      case nz: False
      from replay_fixed_published [of ?df ?s0 ev wakes 0] obtain k new where
        "published ?df ?s0 (replay_fixed ev wakes 0 ?df ?s0) k new" by blast
      from lift [OF this] False nz show ?thesis
        by (auto simp: run_player_def Let_def)
    qed
  qed
qed

lemma run_player_finishes:
  assumes "speed \<noteq> Finite 0" and "\<forall>i < length (sort_values file). wakes i"
  shows "fst (run_player ev sort_values wakes file speed realtime s) = Finished"
proof -
  let ?s0 = "s\<lparr>logged := logged s @ [''Loading ticks'', ''Loaded ticks'']\<rparr>"
  let ?df = "sort_values file"
  from assms(2) have w: "\<forall>j < length ?df. wakes (0 + j)" by simp
  show ?thesis
  proof (cases realtime)
    case True
    with replay_realtime_finishes [OF assms(1) w, of ev None ?s0] show ?thesis
      by (cases "replay_realtime ev speed wakes 0 None ?df ?s0") (simp add: run_player_def Let_def)
  next
    case False
    with replay_fixed_finishes [OF w, of ev ?s0] assms(1) show ?thesis
      by (cases "replay_fixed ev wakes 0 ?df ?s0") (simp add: run_player_def Let_def)
  qed
qed

text \<open>
  C8 (amended). For an input file of N rows with strictly increasing timestamps, whatever
  the speed, the entries the player publishes to the tick topic are the first k rows of
  the file in order, for some k up to N: their entry ids are consecutive, hence strictly
  increasing, and their \<open>timestamp\<close> fields are the rows' timestamps, hence non-decreasing.
  All N rows are published whenever the run finishes, and it finishes when the speed is
  not zero and every pacing sleep returns.
\<close>

theorem replay_publishes_in_order:
  assumes "sorted_wrt (<) (map row_timestamp file)" and "sorts_by_timestamp sort_values file"
  shows "\<exists>out s' k new.
        run_player ev sort_values wakes file speed realtime s = (out, s')
      \<and> streams s' TICK_STREAM = streams s TICK_STREAM @ new
      \<and> length new = k \<and> k \<le> length file
      \<and> map fst new = [next_id (streams s TICK_STREAM) ..< next_id (streams s TICK_STREAM) + k]
      \<and> sorted_wrt (<) (map fst new)
      \<and> map entry_timestamp new = map (\<lambda>r. Some (row_timestamp r)) (take k file)
      \<and> sorted (map (the \<circ> entry_timestamp) new)
      \<and> (out = Finished \<longrightarrow> k = length file)
      \<and> (speed \<noteq> Finite 0 \<and> (\<forall>i < length file. wakes i) \<longrightarrow> out = Finished)"
proof -
  have id: "sort_values file = file"
    using assms by (rule sorted_arrangement_unique)
  obtain out s' where run: "run_player ev sort_values wakes file speed realtime s = (out, s')"
    by (cases "run_player ev sort_values wakes file speed realtime s")
  from run_player_published [of sort_values "file" s ev wakes speed realtime]
  obtain k new where "published file s (out, s') k new"
    unfolding id run by blast
  then have st: "streams s' TICK_STREAM = streams s TICK_STREAM @ new"
    and k: "k \<le> length file"
    and ids: "map fst new = [next_id (streams s TICK_STREAM) ..< next_id (streams s TICK_STREAM) + k]"
    and ts: "map entry_timestamp new = map (\<lambda>r. Some (row_timestamp r)) (take k file)"
    and fin: "out = Finished \<longrightarrow> k = length file"
    by (simp_all add: published_def)
  from ids have "length (map fst new) = k" by simp
  then have len: "length new = k" by simp
  have inc: "sorted_wrt (<) (map fst new)"
    unfolding ids by simp
  from assms(1) have "sorted (map row_timestamp file)"
    by (rule strict_sorted_imp_sorted)
  then have "sorted (take k (map row_timestamp file))"
    by (rule sorted_wrt_take)
  moreover have "map (the \<circ> entry_timestamp) new = map the (map entry_timestamp new)"
    by simp
  ultimately have nd: "sorted (map (the \<circ> entry_timestamp) new)"
    unfolding ts by (simp add: comp_def take_map)
  have ends: "speed \<noteq> Finite 0 \<and> (\<forall>i < length file. wakes i) \<longrightarrow> out = Finished"
  proof
    assume a: "speed \<noteq> Finite 0 \<and> (\<forall>i < length file. wakes i)"
    then have "\<forall>i < length (sort_values file). wakes i" by (simp add: id)
    with a have "fst (run_player ev sort_values wakes file speed realtime s) = Finished"
      by (intro run_player_finishes) simp_all
    with run show "out = Finished" by simp
  qed
  from run st len k ids inc ts nd fin ends show ?thesis by blast
qed

theorem replay_publishes_in_order_witness:
  "sorted_wrt (<) (map row_timestamp two_rows)
   \<and> sorts_by_timestamp (sort_key row_timestamp) two_rows
   \<and> fst (run_player env0 (sort_key row_timestamp) (\<lambda>i. True) two_rows (Finite 2) True sys0) = Finished
   \<and> map fst (streams (snd (run_player env0 (sort_key row_timestamp) (\<lambda>i. True) two_rows (Finite 2) True sys0))
        TICK_STREAM) = [1, 2]
   \<and> map entry_timestamp
        (streams (snd (run_player env0 (sort_key row_timestamp) (\<lambda>i. True) two_rows (Finite 2) True sys0))
          TICK_STREAM) = [Some 1000, Some 2000]"
proof -
  have a: "sorted_wrt (<) (map row_timestamp two_rows)" by (simp add: two_rows_def)
  have b: "sorts_by_timestamp (sort_key row_timestamp) two_rows"
    by (simp add: sorts_by_timestamp_def)
  show ?thesis
    using a b replay_publishes_in_order [OF a b, of env0 "\<lambda>i. True" "Finite 2" True sys0]
    by (simp add: two_rows_def run_player_def publish_tick_def xadd_def next_id_def
          entry_timestamp_def json_dumps_def dict_get_def sys0_def env0_def Let_def)
qed

text \<open>
  The claim as stated fails for a speed of zero: the pacing divides by it. Without
  \<open>realtime\<close> nothing is published; with \<open>realtime\<close> the first of two rows is.
\<close>

theorem replay_zero_speed_counterexample:
  "sorted_wrt (<) (map row_timestamp two_rows)
   \<and> run_player env0 (sort_key row_timestamp) (\<lambda>i. True) two_rows (Finite 0) False sys0 =
       (Raised ZeroDivisionError, sys0\<lparr>logged := [''Loading ticks'', ''Loaded ticks'']\<rparr>)
   \<and> fst (run_player env0 (sort_key row_timestamp) (\<lambda>i. True) two_rows (Finite 0) True sys0)
       = Raised ZeroDivisionError
   \<and> map fst (streams (snd (run_player env0 (sort_key row_timestamp) (\<lambda>i. True) two_rows (Finite 0) True sys0))
        TICK_STREAM) = [1]"
  by (simp add: two_rows_def run_player_def publish_tick_def xadd_def next_id_def
        json_dumps_def sys0_def env0_def Let_def)

section \<open>Fan-out Gateway\<close>

lemma handle_inbox: "handle e (g\<lparr>inbox := i\<rparr>) = (handle e g)\<lparr>inbox := i\<rparr>"
  by (cases e) (simp_all add: connect_def disconnect_def)

lemma fold_handle_inbox: "fold handle evs (g\<lparr>inbox := i\<rparr>) = (fold handle evs g)\<lparr>inbox := i\<rparr>"
  by (induction evs arbitrary: g) (simp_all add: handle_inbox)

lemma inbox_handle: "inbox (handle e g) = inbox g"
  by (cases e) (simp_all add: connect_def disconnect_def)

lemma inbox_fold_handle: "inbox (fold handle evs g) = inbox g"
  by (induction evs arbitrary: g) (simp_all add: inbox_handle)

lemma dropped_handle: "dropped g \<subseteq> dropped (handle e g)"
  by (cases e) (auto simp: connect_def disconnect_def)

lemma dropped_fold_handle: "dropped g \<subseteq> dropped (fold handle evs g)"
proof (induction evs arbitrary: g)
  case Nil
  show ?case by simp
next
  case (Cons e evs)
  have "dropped g \<subseteq> dropped (handle e g)" by (rule dropped_handle)
  also have "\<dots> \<subseteq> dropped (fold handle evs (handle e g))" by (rule Cons.IH)
  finally show ?case by simp
qed

lemma send_text_cases:
  obtains (failed) e where "send_text sched ws m g = (Some e, fold handle (sched ws) g)"
      and "ws \<in> dropped (fold handle (sched ws) g)"
  | (sent) "send_text sched ws m g =
        (None, (fold handle (sched ws) g)\<lparr>inbox := inbox g @ [(ws, m)]\<rparr>)"
      and "ws \<notin> dropped (fold handle (sched ws) g)"
  by (cases "ws \<in> dropped (fold handle (sched ws) g)")
     (simp_all add: send_text_def Let_def inbox_fold_handle)

lemma broadcast_pass_acc:
  "broadcast_pass sched m wss (rm, g) =
     (rm @ fst (broadcast_pass sched m wss ([], g)), snd (broadcast_pass sched m wss ([], g)))"
proof (induction wss arbitrary: rm g)
  case Nil
  show ?case by simp
next
  case (Cons w wss)
  show ?case
  proof (cases rule: send_text_cases [of sched w m g])
    case (failed e)
    then show ?thesis
      using Cons.IH [of "rm @ [w]"] Cons.IH [of "[w]"] by simp
  next
    case sent
    then show ?thesis
      using Cons.IH [of rm] by simp
  qed
qed

lemma broadcast_pass_marks:
  "set (fst (broadcast_pass sched m wss ([], g))) \<subseteq> set wss"
proof (induction wss arbitrary: g)
  case Nil
  show ?case by simp
next
  case (Cons w wss)
  show ?case
  proof (cases rule: send_text_cases [of sched w m g])
    case (failed e)
    then show ?thesis
      using Cons.IH [of "fold handle (sched w) g"]
      by (auto simp: broadcast_pass_acc [of sched m wss "[w]"])
  next
    case sent
    then show ?thesis
      using Cons.IH [of "(fold handle (sched w) g)\<lparr>inbox := inbox g @ [(w, m)]\<rparr>"] by auto
  qed
qed

lemma broadcast_pass_state:
  "\<exists>i. snd (broadcast_pass sched m wss ([], g)) =
       (fold handle (concat (map sched wss)) g)\<lparr>inbox := i\<rparr>"
proof (induction wss arbitrary: g)
  case Nil
  show ?case by (simp, rule exI [of _ "inbox g"], simp)
next
  case (Cons w wss)
  show ?case
  proof (cases rule: send_text_cases [of sched w m g])
    case (failed e)
    then show ?thesis
      using Cons.IH [of "fold handle (sched w) g"]
      by (auto simp: broadcast_pass_acc [of sched m wss "[w]"])
  next
    case sent
    then show ?thesis
      using Cons.IH [of "(fold handle (sched w) g)\<lparr>inbox := inbox g @ [(w, m)]\<rparr>"]
      by (auto simp: fold_handle_inbox)
  qed
qed

lemma broadcast_pass_dropped:
  "set (fst (broadcast_pass sched m wss ([], g))) \<subseteq> dropped (snd (broadcast_pass sched m wss ([], g)))"
proof (induction wss arbitrary: g)
  case Nil
  show ?case by simp
next
  case (Cons w wss)
  show ?case
  proof (cases rule: send_text_cases [of sched w m g])
    case (failed e)
    let ?g = "fold handle (sched w) g"
    obtain i where i: "snd (broadcast_pass sched m wss ([], ?g)) =
       (fold handle (concat (map sched wss)) ?g)\<lparr>inbox := i\<rparr>"
      using broadcast_pass_state by blast
    have "w \<in> dropped (snd (broadcast_pass sched m wss ([], ?g)))"
      using failed(2) dropped_fold_handle [of ?g "concat (map sched wss)"] by (auto simp: i)
    with failed(1) show ?thesis
      using Cons.IH [of ?g]
      by (auto simp: broadcast_pass_acc [of sched m wss "[w]"])
  next
    case sent
    then show ?thesis
      using Cons.IH [of "(fold handle (sched w) g)\<lparr>inbox := inbox g @ [(w, m)]\<rparr>"] by auto
  qed
qed

lemma broadcast_pass_inbox:
  assumes "distinct wss"
  shows "inbox (snd (broadcast_pass sched m wss ([], g))) =
     inbox g @ map (\<lambda>w. (w, m))
       (filter (\<lambda>w. w \<notin> set (fst (broadcast_pass sched m wss ([], g)))) wss)"
  using assms
proof (induction wss arbitrary: g)
  case Nil
  show ?case by simp
next
  case (Cons w wss)
  from Cons.prems have d: "distinct wss" and nw: "w \<notin> set wss" by simp_all
  show ?case
  proof (cases rule: send_text_cases [of sched w m g])
    case (failed e)
    let ?g = "fold handle (sched w) g"
    let ?rm = "fst (broadcast_pass sched m wss ([], ?g))"
    have f: "filter (\<lambda>x. x \<noteq> w \<and> x \<notin> set ?rm) wss = filter (\<lambda>x. x \<notin> set ?rm) wss"
      using nw by (intro filter_cong) auto
    from failed(1) show ?thesis
      using Cons.IH [OF d, of ?g]
      by (simp add: broadcast_pass_acc [of sched m wss "[w]"] inbox_fold_handle f)
  next
    case sent
    let ?g = "(fold handle (sched w) g)\<lparr>inbox := inbox g @ [(w, m)]\<rparr>"
    have "w \<notin> set (fst (broadcast_pass sched m wss ([], ?g)))"
      using broadcast_pass_marks [of sched m wss ?g] nw by auto
    with sent(1) show ?thesis
      using Cons.IH [OF d, of ?g] by simp
  qed
qed

lemma fold_disconnect: "fold disconnect rm g = g\<lparr>active := filter (\<lambda>w. w \<notin> set rm) (active g)\<rparr>"
proof (induction rm arbitrary: g)
  case Nil
  show ?case by simp
next
  case (Cons w rm)
  have "fold disconnect (w # rm) g = fold disconnect rm (disconnect w g)" by simp
  also have "\<dots> = (disconnect w g)\<lparr>active := filter (\<lambda>x. x \<notin> set rm) (active (disconnect w g))\<rparr>"
    by (rule Cons.IH)
  also have "\<dots> = g\<lparr>active := filter (\<lambda>x. x \<notin> set (w # rm)) (active g)\<rparr>"
  proof -
    have "(\<lambda>x. w \<noteq> x \<and> x \<notin> set rm) = (\<lambda>x. x \<notin> set (w # rm))" by auto
    then show ?thesis
      by (simp add: disconnect_def removeAll_filter_not_eq del: set_simps)
  qed
  finally show ?case .
qed

lemma broadcast_pass_quiet:
  "fst (broadcast_pass (\<lambda>w. []) m wss ([], g)) = filter (\<lambda>w. w \<in> dropped g) wss"
proof (induction wss arbitrary: g)
  case Nil
  show ?case by simp
next
  case (Cons w wss)
  show ?case
  proof (cases "w \<in> dropped g")
    case True
    then show ?thesis
      using Cons.IH [of g]
      by (simp add: send_text_def broadcast_pass_acc [of _ m wss "[w]"])
  next
    case False
    then show ?thesis
      using Cons.IH [of "g\<lparr>inbox := inbox g @ [(w, m)]\<rparr>"]
      by (simp add: send_text_def)
  qed
qed

text \<open>
  C6. One broadcast pass runs over the connections registered when it starts, whatever
  connects or disconnects while it is suspended in a send. A connection is marked for
  removal only if its send failed; the pass itself leaves the connection set to the other
  handlers, and the marked connections are removed after it. No error leaves \<open>broadcast\<close>,
  and every connection of the snapshot that was not marked receives the envelope once.
\<close>

theorem broadcast_over_snapshot:
  assumes "distinct (active g)"
  shows "\<exists>to_remove g1.
      broadcast_pass sched m (active g) ([], g) = (to_remove, g1)
    \<and> broadcast sched m g = (None, g1\<lparr>active := filter (\<lambda>w. w \<notin> set to_remove) (active g1)\<rparr>)
    \<and> set to_remove \<subseteq> set (active g)
    \<and> set to_remove \<subseteq> dropped g1
    \<and> inbox g1 = inbox g @ map (\<lambda>w. (w, m)) (filter (\<lambda>w. w \<notin> set to_remove) (active g))
    \<and> active g1 = active (fold handle (concat (map sched (active g))) g)
    \<and> ((\<forall>w. sched w = []) \<longrightarrow> to_remove = filter (\<lambda>w. w \<in> dropped g) (active g))"
proof -
  obtain to_remove g1 where p: "broadcast_pass sched m (active g) ([], g) = (to_remove, g1)"
    by (cases "broadcast_pass sched m (active g) ([], g)")
  have b: "broadcast sched m g = (None, g1\<lparr>active := filter (\<lambda>w. w \<notin> set to_remove) (active g1)\<rparr>)"
    by (simp add: broadcast_def p fold_disconnect)
  have m1: "set to_remove \<subseteq> set (active g)"
    using broadcast_pass_marks [of sched m "active g" g] by (simp add: p)
  have m2: "set to_remove \<subseteq> dropped g1"
    using broadcast_pass_dropped [of sched m "active g" g] by (simp add: p)
  have i: "inbox g1 = inbox g @ map (\<lambda>w. (w, m)) (filter (\<lambda>w. w \<notin> set to_remove) (active g))"
    using broadcast_pass_inbox [OF assms, of sched m g] by (simp add: p)
  have a: "active g1 = active (fold handle (concat (map sched (active g))) g)"
    using broadcast_pass_state [of sched m "active g" g] by (auto simp: p)
  have q: "(\<forall>w. sched w = []) \<longrightarrow> to_remove = filter (\<lambda>w. w \<in> dropped g) (active g)"
  proof
    assume "\<forall>w. sched w = []"
    then have "sched = (\<lambda>w. [])" by auto
    with p show "to_remove = filter (\<lambda>w. w \<in> dropped g) (active g)"
      using broadcast_pass_quiet [of m "active g" g] by simp
  qed
  from p b m1 m2 i a q show ?thesis by blast
qed

theorem broadcast_over_snapshot_witness:
  "distinct (active gateway0)
   \<and> broadcast sched0 ''env'' gateway0 =
       (None, \<lparr>active = [1, 4], dropped = {2}, inbox = [(1, ''env''), (3, ''env'')]\<rparr>)
   \<and> broadcast (\<lambda>w. []) ''env'' gateway0 =
       (None, \<lparr>active = [1, 3], dropped = {2}, inbox = [(1, ''env''), (3, ''env'')]\<rparr>)"
  using broadcast_over_snapshot [of gateway0 sched0 "''env''"]
    broadcast_over_snapshot [of gateway0 "\<lambda>w. []" "''env''"]
  by (simp add: gateway0_def sched0_def broadcast_def send_text_def connect_def disconnect_def)

end
